theory Spec2Isabelle
  imports Main "HOL-Library.Word" "HOL-Library.AList"
begin

unbundle bit_operations_syntax

section \<open>Content addressing: \<^verbatim>\<open>src/common/util.js\<close>, lines 87-111\<close>

text \<open>
  \<^verbatim>\<open>b58MultihashForBuffer\<close> and \<^verbatim>\<open>isB58Multihash\<close> are thin wrappers around three
  packages that are not part of the repository's sources: \<^verbatim>\<open>bs58\<close> (through
  \<^verbatim>\<open>multihashes\<close>), \<^verbatim>\<open>multihashes\<close> itself and Node's \<^verbatim>\<open>crypto\<close>. The wrappers
  are translated from the source; the packages are modelled below.
\<close>

type_synonym byte = "8 word"
type_synonym buffer = "byte list"

datatype mh_error =
    NonBase58Character
  | TooShort
  | TooLong
  | UnknownFunctionCode byte
  | LengthInconsistent
  | UnrecognizedFunctionName string
  | DigestTooLong

subsection \<open>Positional numbers\<close>

text \<open>Digits of \<open>n\<close> in base \<open>b\<close>, least significant first; no digit at all for 0.\<close>

function digits_le :: "nat \<Rightarrow> nat \<Rightarrow> nat list" where
  "digits_le b n = (if b < 2 \<or> n = 0 then [] else (n mod b) # digits_le b (n div b))"
  by pat_completeness auto
termination
  by (relation "measure snd") auto

declare digits_le.simps [simp del]

fun value_le :: "nat \<Rightarrow> nat list \<Rightarrow> nat" where
  "value_le b [] = 0"
| "value_le b (d # ds) = d + b * value_le b ds"

definition value_be :: "nat \<Rightarrow> nat list \<Rightarrow> nat" where
  "value_be b ds = value_le b (rev ds)"

subsection \<open>Base58 text\<close>

text \<open>
  Modelled from the spec: the \<^verbatim>\<open>bs58\<close> codec behind \<^verbatim>\<open>Multihash.toB58String\<close> and
  \<^verbatim>\<open>Multihash.fromB58String\<close> is not under src/. Section 4.1 calls its output "the
  canonical base58 text form" and says that parsing fails "if the string is not valid
  base58". The model is the Bitcoin alphabet codec: every leading zero byte is one
  leading \<^verbatim>\<open>1\<close>, the remaining bytes are one big-endian number written in base 58 with
  no leading zero digit, and decoding inverts this, throwing on any character outside the
  alphabet.
\<close>

definition ALPHABET :: string where
  "ALPHABET = ''123456789ABCDEFGHJKLMNPQRSTUVWXYZabcdefghijkmnopqrstuvwxyz''"

fun index_of :: "'a \<Rightarrow> 'a list \<Rightarrow> nat option" where
  "index_of x [] = None"
| "index_of x (y # ys) = (if x = y then Some 0 else map_option Suc (index_of x ys))"

definition bs58_encode :: "buffer \<Rightarrow> string" where
  "bs58_encode source =
     replicate (length (takeWhile (\<lambda>b. b = 0) source)) (CHR ''1'') @
     map (\<lambda>d. ALPHABET ! d) (rev (digits_le 58 (value_be 256 (map unat source))))"

definition bs58_decode :: "string \<Rightarrow> mh_error + buffer" where
  "bs58_decode str =
     (case those (map (\<lambda>c. index_of c ALPHABET) str) of
        None \<Rightarrow> Inl NonBase58Character
      | Some ds \<Rightarrow>
          Inr (replicate (length (takeWhile (\<lambda>c. c = CHR ''1'') str)) 0 @
               map of_nat (rev (digits_le 256 (value_be 58 ds)))))"

definition toB58String :: "buffer \<Rightarrow> string" where
  "toB58String hash = bs58_encode hash"

definition fromB58String :: "string \<Rightarrow> mh_error + buffer" where
  "fromB58String hash = bs58_decode hash"

subsection \<open>The multihash wire format\<close>

text \<open>
  Modelled from the spec: the \<^verbatim>\<open>multihashes\<close> package is not under src/. Section 4.1:
  \<^verbatim>\<open>digestOf\<close> "wraps the digest with a self-describing hash-function tag", and
  \<^verbatim>\<open>parse\<close> fails "if the decoded length does not match the declared hash function's
  digest size, or if the hash-function tag is unrecognized". A multihash is the function
  code, the digest length and the digest: \<^verbatim>\<open>[code, length] ++ digest\<close>, both
  header fields one byte; the declared size is the second byte, and the whole is 3 to
  129 bytes long. The package's table of function names and codes
  (\<^verbatim>\<open>constants.js\<close>) is a parameter \<open>names\<close> of every function that consults it;
  codes 1 to 15 are reserved for applications and are always accepted.
\<close>

type_synonym names = "(string \<times> byte) list"

definition thenE :: "'e + 'a \<Rightarrow> ('a \<Rightarrow> 'e + 'b) \<Rightarrow> 'e + 'b" where
  "thenE r f = (case r of Inl e \<Rightarrow> Inl e | Inr x \<Rightarrow> f x)"

definition isAppCode :: "byte \<Rightarrow> bool" where
  "isAppCode code = (0 < code \<and> code < 0x10)"

definition isValidCode :: "names \<Rightarrow> byte \<Rightarrow> bool" where
  "isValidCode names code = (isAppCode code \<or> code \<in> set (map snd names))"

definition coerceCode :: "names \<Rightarrow> string \<Rightarrow> mh_error + byte" where
  "coerceCode names name =
     (case map_of names name of
        None \<Rightarrow> Inl (UnrecognizedFunctionName name)
      | Some code \<Rightarrow> Inr code)"

definition Multihash_encode :: "names \<Rightarrow> buffer \<Rightarrow> string \<Rightarrow> mh_error + buffer" where
  "Multihash_encode names digest name =
     thenE (coerceCode names name) (\<lambda>hashfn.
       if length digest > 127 then Inl DigestTooLong
       else Inr ([hashfn, of_nat (length digest)] @ digest))"

definition validate :: "names \<Rightarrow> buffer \<Rightarrow> mh_error + unit" where
  "validate names multihash =
     (if length multihash < 3 then Inl TooShort
      else if length multihash > 129 then Inl TooLong
      else if \<not> isValidCode names (hd multihash) then Inl (UnknownFunctionCode (hd multihash))
      else if length (drop 2 multihash) \<noteq> unat (multihash ! 1) then Inl LengthInconsistent
      else Inr ())"

subsection \<open>SHA-256\<close>

text \<open>
  Modelled from the spec: Node's \<^verbatim>\<open>crypto.createHash('sha256')\<close> is not under src/.
  Section 4.1: \<^verbatim>\<open>digestOf\<close> "hashes the input with the configured function (default
  sha2-256)". The model is the function of FIPS 180-4 on byte strings: padding to a
  multiple of 64 bytes, sixteen big-endian words per block, the 64-word message schedule
  and 64 rounds of compression.
\<close>

type_synonym w32 = "32 word"

definition Ch :: "w32 \<Rightarrow> w32 \<Rightarrow> w32 \<Rightarrow> w32" where
  "Ch x y z = (x AND y) XOR (NOT x AND z)"

definition Maj :: "w32 \<Rightarrow> w32 \<Rightarrow> w32 \<Rightarrow> w32" where
  "Maj x y z = (x AND y) XOR (x AND z) XOR (y AND z)"

definition bsig0 :: "w32 \<Rightarrow> w32" where
  "bsig0 x = word_rotr 2 x XOR word_rotr 13 x XOR word_rotr 22 x"

definition bsig1 :: "w32 \<Rightarrow> w32" where
  "bsig1 x = word_rotr 6 x XOR word_rotr 11 x XOR word_rotr 25 x"

definition ssig0 :: "w32 \<Rightarrow> w32" where
  "ssig0 x = word_rotr 7 x XOR word_rotr 18 x XOR drop_bit 3 x"

definition ssig1 :: "w32 \<Rightarrow> w32" where
  "ssig1 x = word_rotr 17 x XOR word_rotr 19 x XOR drop_bit 10 x"

definition round_constants :: "w32 list" where
  "round_constants = map of_nat
    [1116352408, 1899447441, 3049323471, 3921009573, 961987163, 1508970993, 2453635748,
     2870763221, 3624381080, 310598401, 607225278, 1426881987, 1925078388, 2162078206,
     2614888103, 3248222580, 3835390401, 4022224774, 264347078, 604807628, 770255983,
     1249150122, 1555081692, 1996064986, 2554220882, 2821834349, 2952996808, 3210313671,
     3336571891, 3584528711, 113926993, 338241895, 666307205, 773529912, 1294757372,
     1396182291, 1695183700, 1986661051, 2177026350, 2456956037, 2730485921, 2820302411,
     3259730800, 3345764771, 3516065817, 3600352804, 4094571909, 275423344, 430227734,
     506948616, 659060556, 883997877, 958139571, 1322822218, 1537002063, 1747873779,
     1955562222, 2024104815, 2227730452, 2361852424, 2428436474, 2756734187, 3204031479,
     3329325298]"

text \<open>The padded message: the byte 0x80, zero bytes, and the bit length as 64 bits.\<close>

definition pad :: "buffer \<Rightarrow> buffer" where
  "pad msg =
     msg @ [0x80] @ replicate ((119 - length msg mod 64) mod 64) 0 @
     map (\<lambda>i. of_nat ((8 * length msg) div 2 ^ (8 * (7 - i)) mod 256)) [0..<8]"

fun word_of_bytes :: "buffer \<Rightarrow> w32" where
  "word_of_bytes bs = of_nat (value_be 256 (map unat bs))"

definition bytes_of_word :: "w32 \<Rightarrow> buffer" where
  "bytes_of_word w = [ucast (drop_bit 24 w), ucast (drop_bit 16 w), ucast (drop_bit 8 w), ucast w]"

fun block_words :: "nat \<Rightarrow> buffer \<Rightarrow> w32 list" where
  "block_words 0 bs = []"
| "block_words (Suc n) bs = word_of_bytes (take 4 bs) # block_words n (drop 4 bs)"

fun schedule :: "nat \<Rightarrow> w32 list \<Rightarrow> w32 list" where
  "schedule 0 ws = ws"
| "schedule (Suc n) ws =
     schedule n
       (ws @ [ssig1 (ws ! (length ws - 2)) + ws ! (length ws - 7) +
              ssig0 (ws ! (length ws - 15)) + ws ! (length ws - 16)])"

type_synonym hstate = "w32 \<times> w32 \<times> w32 \<times> w32 \<times> w32 \<times> w32 \<times> w32 \<times> w32"

fun compress_round :: "hstate \<Rightarrow> w32 \<times> w32 \<Rightarrow> hstate" where
  "compress_round (a, b, c, d, e, f, g, h) (k, w) =
     (let t1 = h + bsig1 e + Ch e f g + k + w;
          t2 = bsig0 a + Maj a b c
      in (t1 + t2, a, b, c, d + t1, e, f, g))"

fun add_state :: "hstate \<Rightarrow> hstate \<Rightarrow> hstate" where
  "add_state (a, b, c, d, e, f, g, h) (a', b', c', d', e', f', g', h') =
     (a + a', b + b', c + c', d + d', e + e', f + f', g + g', h + h')"

definition compress_block :: "hstate \<Rightarrow> buffer \<Rightarrow> hstate" where
  "compress_block st block =
     add_state st (foldl compress_round st (zip round_constants (schedule 48 (block_words 16 block))))"

fun blocks :: "nat \<Rightarrow> buffer \<Rightarrow> buffer list" where
  "blocks 0 bs = []"
| "blocks (Suc n) bs = take 64 bs # blocks n (drop 64 bs)"

definition initial_state :: hstate where
  "initial_state =
     (of_nat 1779033703, of_nat 3144134277, of_nat 1013904242, of_nat 2773480762,
      of_nat 1359893119, of_nat 2600822924, of_nat 528734635, of_nat 1541459225)"

fun state_bytes :: "hstate \<Rightarrow> buffer" where
  "state_bytes (a, b, c, d, e, f, g, h) = concat (map bytes_of_word [a, b, c, d, e, f, g, h])"

definition sha256 :: "buffer \<Rightarrow> buffer" where
  "sha256 msg =
     state_bytes (foldl compress_block initial_state (blocks (length (pad msg) div 64) (pad msg)))"

text \<open>
  \<^verbatim>\<open>hash.update(buf); Multihash.encode(hash.digest(), 'sha2-256');
  Multihash.toB58String(mh)\<close>. \<^verbatim>\<open>Multihash.encode\<close> can throw, and the wrapper does not
  catch.
\<close>

definition b58MultihashForBuffer :: "names \<Rightarrow> buffer \<Rightarrow> mh_error + string" where
  "b58MultihashForBuffer names buf =
     thenE (Multihash_encode names (sha256 buf) ''sha2-256'') (\<lambda>mh.
     Inr (toB58String mh))"

subsection \<open>The two wrappers of the source\<close>

text \<open>
  \<^verbatim>\<open>try { ... } catch (err) { return false }\<close>: the handler receives whatever the body
  threw. A function that can throw returns \<open>mh_error + 'a\<close>, \<open>Inl\<close> being the throw.
\<close>

definition try_catch :: "'e + 'a \<Rightarrow> ('e \<Rightarrow> 'e + 'a) \<Rightarrow> 'e + 'a" where
  "try_catch body handler = (case body of Inl err \<Rightarrow> handler err | Inr x \<Rightarrow> Inr x)"

definition isB58Multihash :: "names \<Rightarrow> string \<Rightarrow> mh_error + bool" where
  "isB58Multihash names str =
     try_catch
       (thenE (fromB58String str) (\<lambda>h.
        thenE (validate names h) (\<lambda>_.
        Inr True)))
       (\<lambda>err. Inr False)"

subsection \<open>Content references\<close>

text \<open>
  Modelled from the spec: the source has no function that returns a parsed reference; its
  only consumer of a text is \<open>isB58Multihash\<close>. Section 3 describes a ContentReference
  as hash function, digest bytes and base58 text, section 4.1 \<^verbatim>\<open>digestOf\<close> as hashing
  and wrapping (what \<open>b58MultihashForBuffer\<close> does) and \<^verbatim>\<open>parse\<close> as the decoding and
  validation that \<open>isB58Multihash\<close> runs inside its \<^verbatim>\<open>try\<close>.
\<close>

record content_reference =
  hashFunction :: byte
  digestBytes :: buffer
  textEncoding :: string

definition digestOf :: "names \<Rightarrow> buffer \<Rightarrow> mh_error + content_reference" where
  "digestOf names bytes =
     thenE (coerceCode names ''sha2-256'') (\<lambda>code.
     thenE (b58MultihashForBuffer names bytes) (\<lambda>text.
     Inr \<lparr>hashFunction = code, digestBytes = sha256 bytes, textEncoding = text\<rparr>))"

definition parse :: "names \<Rightarrow> string \<Rightarrow> mh_error + content_reference" where
  "parse names text =
     thenE (fromB58String text) (\<lambda>h.
     thenE (validate names h) (\<lambda>_.
     Inr \<lparr>hashFunction = hd h, digestBytes = drop 2 h, textEncoding = text\<rparr>))"

section \<open>JavaScript values, promises and effects\<close>

text \<open>
  The values the modelled code passes around. An \<^verbatim>\<open>Error\<close> object is its name and
  its message; a plain object is its own enumerable properties in \<^verbatim>\<open>Object.keys\<close>
  order. A number is a double; the numbers modelled are the integers from \<open>-2^53\<close> to
  \<open>2^53 - 1\<close>, each of which a double holds exactly and prints with all its digits:
  54 bits read as two's complement (\<open>sint\<close>). No arithmetic is done on them.
\<close>

type_synonym js_integer = "54 word"

datatype jsval =
    Undefined
  | Null
  | JBool bool
  | JNum js_integer
  | JStr string
  | JError string string
  | JObj "(string \<times> jsval) list"

fun truthy :: "jsval \<Rightarrow> bool" where
  "truthy Undefined = False"
| "truthy Null = False"
| "truthy (JBool b) = b"
| "truthy (JNum n) = (n \<noteq> 0)"
| "truthy (JStr s) = (s \<noteq> [])"
| "truthy (JError n m) = True"
| "truthy (JObj ps) = True"

text \<open>\<^verbatim>\<open>x == null\<close> holds for \<^verbatim>\<open>null\<close> and \<^verbatim>\<open>undefined\<close> only.\<close>

fun is_nullish :: "jsval \<Rightarrow> bool" where
  "is_nullish Undefined = True"
| "is_nullish Null = True"
| "is_nullish v = False"

definition show_nat :: "nat \<Rightarrow> string" where
  "show_nat n = (if n = 0 then ''0'' else map (\<lambda>d. ''0123456789'' ! d) (rev (digits_le 10 n)))"

definition show_int :: "int \<Rightarrow> string" where
  "show_int i = (if i < 0 then ''-'' @ show_nat (nat (- i)) else show_nat (nat i))"

text \<open>The string a template literal \<^verbatim>\<open>${v}\<close> inserts for \<open>v\<close>.\<close>

fun to_string :: "jsval \<Rightarrow> string" where
  "to_string Undefined = ''undefined''"
| "to_string Null = ''null''"
| "to_string (JBool b) = (if b then ''true'' else ''false'')"
| "to_string (JNum n) = show_int (sint n)"
| "to_string (JStr s) = s"
| "to_string (JError n m) = (if m = [] then n else if n = [] then m else n @ '': '' @ m)"
| "to_string (JObj ps) = ''[object Object]''"

text \<open>
  A property read \<^verbatim>\<open>v.name\<close>: a \<^verbatim>\<open>TypeError\<close> on \<^verbatim>\<open>null\<close> and
  \<^verbatim>\<open>undefined\<close> (\<open>Inl\<close> is the thrown value), \<^verbatim>\<open>undefined\<close> for a property that is
  not there.
\<close>

fun get_prop :: "jsval \<Rightarrow> string \<Rightarrow> jsval + jsval" where
  "get_prop Undefined name =
     Inl (JError ''TypeError'' (''Cannot read property '' @ name @ '' of undefined''))"
| "get_prop Null name =
     Inl (JError ''TypeError'' (''Cannot read property '' @ name @ '' of null''))"
| "get_prop (JError n m) name =
     Inr (if name = ''message'' then JStr m else if name = ''name'' then JStr n else Undefined)"
| "get_prop (JObj ps) name = Inr (case map_of ps name of None \<Rightarrow> Undefined | Some v \<Rightarrow> v)"
| "get_prop v name = Inr Undefined"

text \<open>
  A promise either never settles, or settles at some time (in milliseconds, counted from
  the call under study) as fulfilled with a value or rejected with a reason.
\<close>

datatype 'a outcome = Fulfilled 'a | Rejected jsval

datatype 'a promise = Pending | Settled nat "'a outcome"

text \<open>\<^verbatim>\<open>p.then(f)\<close> for a callback \<open>f\<close> that returns a plain value and does not throw.\<close>

fun then_p :: "('a \<Rightarrow> 'b) \<Rightarrow> 'a promise \<Rightarrow> 'b promise" where
  "then_p f Pending = Pending"
| "then_p f (Settled t (Fulfilled v)) = Settled t (Fulfilled (f v))"
| "then_p f (Settled t (Rejected e)) = Settled t (Rejected e)"

text \<open>
  \<^verbatim>\<open>Promise.race\<close>: the first promise to settle decides; of two that settle at the same
  time the one earlier in the array does.
\<close>

fun Promise_race :: "'a promise list \<Rightarrow> 'a promise" where
  "Promise_race [] = Pending"
| "Promise_race (p # ps) =
     (case p of
        Pending \<Rightarrow> Promise_race ps
      | Settled t r \<Rightarrow>
          (case Promise_race ps of
             Pending \<Rightarrow> Settled t r
           | Settled t' r' \<Rightarrow> if t \<le> t' then Settled t r else Settled t' r'))"

text \<open>
  \<^verbatim>\<open>Promise.all\<close>: rejected as soon as one input is rejected, with that input's reason
  (the earliest rejection; of two at the same time the one earlier in the array);
  otherwise fulfilled with all the values once the last input is fulfilled; pending
  forever when no input is rejected and one never settles.
\<close>

fun first_rejection :: "'a promise list \<Rightarrow> (nat \<times> jsval) option" where
  "first_rejection [] = None"
| "first_rejection (p # ps) =
     (case p of
        Settled t (Rejected e) \<Rightarrow>
          (case first_rejection ps of
             None \<Rightarrow> Some (t, e)
           | Some (t', e') \<Rightarrow> if t \<le> t' then Some (t, e) else Some (t', e'))
      | _ \<Rightarrow> first_rejection ps)"

fun fulfilment :: "'a promise \<Rightarrow> (nat \<times> 'a) option" where
  "fulfilment (Settled t (Fulfilled v)) = Some (t, v)"
| "fulfilment p = None"

definition Promise_all :: "'a promise list \<Rightarrow> 'a list promise" where
  "Promise_all ps =
     (case first_rejection ps of
        Some (t, e) \<Rightarrow> Settled t (Rejected e)
      | None \<Rightarrow>
          (case those (map fulfilment ps) of
             None \<Rightarrow> Pending
           | Some tvs \<Rightarrow> Settled (foldr max (map fst tvs) 0) (Fulfilled (map snd tvs))))"

section \<open>Concurrency utilities: \<^verbatim>\<open>src/common/util.js\<close>, lines 17-51\<close>

text \<open>
  A value stored under a key of the \<^verbatim>\<open>hash\<close> argument "may be a Promise": anything
  else is passed through by \<^verbatim>\<open>Promise.all\<close> as already fulfilled.
\<close>

datatype item = Plain jsval | Promise "jsval promise"

fun resolve_item :: "item \<Rightarrow> jsval promise" where
  "resolve_item (Plain v) = Settled 0 (Fulfilled v)"
| "resolve_item (Promise p) = p"

definition Object_keys :: "(string \<times> 'v) list \<Rightarrow> string list" where
  "Object_keys obj = map fst obj"

text \<open>\<^verbatim>\<open>hash[k]\<close>.\<close>

definition read_item :: "(string \<times> item) list \<Rightarrow> string \<Rightarrow> item" where
  "read_item hash k = (case map_of hash k of None \<Rightarrow> Plain Undefined | Some v \<Rightarrow> v)"

text \<open>
  \<^verbatim>\<open>result[key] = r\<close> on an object created by \<^verbatim>\<open>{}\<close>. Its prototype is
  \<^verbatim>\<open>Object.prototype\<close>, whose only accessor property is \<^verbatim>\<open>__proto__\<close>: an
  assignment to that key runs the inherited setter, which replaces the prototype (for an
  object or \<^verbatim>\<open>null\<close>) or does nothing, and creates no property. Any other key is
  created, or overwritten in place.
\<close>

definition assign :: "(string \<times> jsval) list \<Rightarrow> string \<Rightarrow> jsval \<Rightarrow> (string \<times> jsval) list" where
  "assign result key r = (if key = ''__proto__'' then result else AList.update key r result)"

text \<open>\<^verbatim>\<open>keys[idx]\<close>; \<^verbatim>\<open>undefined\<close> past the end becomes the key \<^verbatim>\<open>"undefined"\<close>.\<close>

definition key_at :: "string list \<Rightarrow> nat \<Rightarrow> string" where
  "key_at keys idx = (if idx < length keys then keys ! idx else ''undefined'')"

definition promiseHash :: "(string \<times> item) list \<Rightarrow> jsval promise" where
  "promiseHash hash =
     (let keys = Object_keys hash;
          vals = map (\<lambda>k. read_item hash k) keys
      in then_p
           (\<lambda>resolved.
              JObj (foldl (\<lambda>result (idx, r). assign result (key_at keys idx) r) []
                      (enumerate 0 resolved)))
           (Promise_all (map resolve_item vals)))"

text \<open>
  \<^verbatim>\<open>setTimeout(callback, timeout)\<close> on Node: the callback runs after \<open>timeout\<close>
  milliseconds when \<open>1 \<le> timeout \<le> 2^31 - 1\<close>, and after 1 millisecond otherwise
  (\<^verbatim>\<open>if (!(after >= 1 && after <= TIMEOUT_MAX)) after = 1\<close> in Node's
  \<^verbatim>\<open>lib/timers.js\<close>). The timeout is a whole number of milliseconds, a \<open>js_integer\<close>;
  the template literal of the message prints such a number with all its digits.
\<close>

definition setTimeout_delay :: "js_integer \<Rightarrow> nat" where
  "setTimeout_delay timeout =
     (if 1 \<le> sint timeout \<and> sint timeout \<le> 2147483647 then nat (sint timeout) else 1)"

definition timeout_error :: "js_integer \<Rightarrow> jsval" where
  "timeout_error timeout =
     JError ''Error'' (''Timeout of '' @ show_int (sint timeout) @ ''ms exceeded'')"

definition promiseTimeout :: "js_integer \<Rightarrow> 'a promise \<Rightarrow> 'a promise" where
  "promiseTimeout timeout promise =
     Promise_race [promise, Settled (setTimeout_delay timeout) (Rejected (timeout_error timeout))]"

section \<open>The command handlers: \<^verbatim>\<open>src/unnamed/part_000\<close>\<close>

text \<open>
  What a handler does to the outside world. \<open>Publish\<close> is a call of
  \<^verbatim>\<open>client.publish\<close> on a client for the given peer, \<open>Watch\<close> the registration of
  \<^verbatim>\<open>orderPlacedHandler\<close> by \<^verbatim>\<open>we.watch\<close>, \<open>ProcessExit\<close> a call of
  \<^verbatim>\<open>process.exit\<close>, after which nothing else happens. \<open>UnhandledRejection\<close> is a
  promise chain that ends rejected with the given reason and no handler: the handler calls
  nothing then, and what follows is the runtime's choice (a warning on the Node versions of
  the repository's time, the end of the process with status 1 on Node 15 and later).
\<close>

datatype effect =
    ConsoleLog "jsval list"
  | ConsoleError "jsval list"
  | Publish string string jsval
  | NodeStart
  | OpenConnection jsval
  | Watch
  | ProcessExit int
  | UnhandledRejection jsval

fun is_Publish :: "effect \<Rightarrow> bool" where
  "is_Publish (Publish peer ns stmt) = True"
| "is_Publish e = False"

fun is_ProcessExit :: "effect \<Rightarrow> bool" where
  "is_ProcessExit (ProcessExit code) = True"
| "is_ProcessExit e = False"

fun is_UnhandledRejection :: "effect \<Rightarrow> bool" where
  "is_UnhandledRejection (UnhandledRejection reason) = True"
| "is_UnhandledRejection e = False"

fun is_console :: "effect \<Rightarrow> bool" where
  "is_console (ConsoleLog args) = True"
| "is_console (ConsoleError args) = True"
| "is_console e = False"

subsection \<open>\<^verbatim>\<open>publishRaw\<close>, lines 1-21\<close>

record publishRaw_opts =
  namespace :: string
  peerUrl :: string
  statementBodyId :: string

text \<open>
  \<^verbatim>\<open>api/RestClient\<close> is not under src/, so the client is a parameter: \<open>publish peer n
  ns stmt\<close> is the promise that the \<open>n\<close>-th call (counted from 0) of
  \<^verbatim>\<open>publish(ns, stmt)\<close> on a client for \<open>peer\<close> returns.
\<close>

type_synonym rest_client = "string \<Rightarrow> nat \<Rightarrow> string \<Rightarrow> jsval \<Rightarrow> jsval promise"

text \<open>
  \<^verbatim>\<open>p.then(onFulfilled, onRejected)\<close> seen from outside: the effects of the callback
  that runs, at the time \<open>p\<close> settles; none if it never does.
\<close>

fun on_settled :: "('a \<Rightarrow> effect list) \<Rightarrow> (jsval \<Rightarrow> effect list) \<Rightarrow> 'a promise \<Rightarrow> (nat \<times> effect) list" where
  "on_settled f g Pending = []"
| "on_settled f g (Settled t (Fulfilled v)) = map (Pair t) (f v)"
| "on_settled f g (Settled t (Rejected e)) = map (Pair t) (g e)"

text \<open>
  \<^verbatim>\<open>err => console.error(err.message)\<close>. When \<open>err\<close> is \<^verbatim>\<open>null\<close> or
  \<^verbatim>\<open>undefined\<close> the property read throws inside the callback: nothing is printed, the
  promise that \<^verbatim>\<open>then\<close> returned is rejected with the \<^verbatim>\<open>TypeError\<close>, and the source
  chains no handler after it.
\<close>

definition print_message :: "jsval \<Rightarrow> effect list" where
  "print_message err =
     (case get_prop err ''message'' of
        Inl exn \<Rightarrow> [UnhandledRejection exn]
      | Inr m \<Rightarrow> [ConsoleError [m]])"

definition publishRaw_handler :: "rest_client \<Rightarrow> publishRaw_opts \<Rightarrow> (nat \<times> effect) list" where
  "publishRaw_handler publish opts =
     (let stmt = JObj [(''object'', JStr (statementBodyId opts))]
      in (0, Publish (peerUrl opts) (namespace opts) stmt) #
         on_settled (\<lambda>v. [ConsoleLog [v]]) print_message
           (publish (peerUrl opts) 0 (namespace opts) stmt))"

subsection \<open>\<^verbatim>\<open>oracle\<close>, lines 21-108\<close>

definition orderPlacedHandler :: "jsval \<Rightarrow> jsval \<Rightarrow> effect list" where
  "orderPlacedHandler err event = (if truthy err then [ConsoleError [err]] else [ConsoleLog [event]])"

text \<open>
  \<^verbatim>\<open>commands/util\<close> (\<^verbatim>\<open>bootstrap\<close>), the node it returns, \<^verbatim>\<open>web3\<close> and the contract
  binding are not under src/. Their behaviour in one run of the handler is the record
  below: how each asynchronous operation ends (\<open>None\<close>: it never settles), what
  \<^verbatim>\<open>web3.isConnected()\<close> answers, and the exception, if any, that lines 80 to 82 (the
  \<^verbatim>\<open>Web3\<close>, \<^verbatim>\<open>HttpProvider\<close> and \<^verbatim>\<open>SimpleWrite\<close> constructors) raise.
\<close>

record node_remote =
  remote :: jsval
  directory :: jsval
  start :: "jsval outcome option"
  openConnection :: "jsval outcome option"

record environment =
  bootstrap :: "node_remote outcome option"
  constructors_throw :: "jsval option"
  isConnected :: bool

record oracle_opts =
  remotePeer :: jsval
  rpc :: string

text \<open>
  The identifiers bound where the callback of \<^verbatim>\<open>init.then\<close> runs: the module's
  \<^verbatim>\<open>const\<close>s and function, the parameters and locals of the enclosing functions, the
  callback's own \<^verbatim>\<open>const\<close>s, and the globals of Node that the file uses. Reading an
  identifier that nothing binds throws a \<^verbatim>\<open>ReferenceError\<close>.
\<close>

definition scope :: "string list" where
  "scope = [''os'', ''bootstrap'', ''Web3'', ''SimpleWrite'', ''orderPlacedHandler'',
            ''opts'', ''remotePeer'', ''rpc'', ''node'', ''remote'', ''init'',
            ''web3'', ''simpleWrite'', ''we'',
            ''module'', ''require'', ''console'', ''process'']"

definition read_identifier :: "string \<Rightarrow> jsval + unit" where
  "read_identifier x =
     (if x \<in> set scope then Inr () else Inl (JError ''ReferenceError'' (x @ '' is not defined'')))"

text \<open>
  Lines 80 to 94, the callback of \<^verbatim>\<open>init.then\<close>: the effects it has, and the exception
  that ends it, if any. Line 83 reads \<^verbatim>\<open>simplewrite\<close> and line 84 reads \<^verbatim>\<open>s\<close>; the
  method calls on them have no effect of the kinds recorded here.
\<close>

definition post_connection :: "oracle_opts \<Rightarrow> environment \<Rightarrow> effect list \<times> jsval option" where
  "post_connection opts env =
     (case constructors_throw env of
        Some exn \<Rightarrow> ([], Some exn)
      | None \<Rightarrow>
          (case read_identifier ''simplewrite'' of
             Inl exn \<Rightarrow> ([], Some exn)
           | Inr _ \<Rightarrow>
               (case read_identifier ''s'' of
                  Inl exn \<Rightarrow> ([], Some exn)
                | Inr _ \<Rightarrow>
                    if \<not> isConnected env
                    then ([ConsoleError [JStr ''Unable to connect to ethereum RPC:'', JStr (rpc opts)],
                           ProcessExit (- 1)], None)
                    else ([ConsoleLog [JStr ''Connected to ethereum RPC:'', JStr (rpc opts)],
                           Watch], None))))"

text \<open>Lines 79 to 97: \<^verbatim>\<open>init.then(...).catch(err => { console.log(err) })\<close>.\<close>

definition then_catch :: "oracle_opts \<Rightarrow> environment \<Rightarrow> jsval outcome option \<Rightarrow> effect list" where
  "then_catch opts env init =
     (case init of
        None \<Rightarrow> []
      | Some (Rejected err) \<Rightarrow> [ConsoleLog [err]]
      | Some (Fulfilled _) \<Rightarrow>
          (case post_connection opts env of
             (effects, None) \<Rightarrow> effects
           | (effects, Some err) \<Rightarrow> effects @ [ConsoleLog [err]]))"

text \<open>
  Lines 61 to 98, the callback that receives \<^verbatim>\<open>{node, remote}\<close>. With a remote peer,
  \<^verbatim>\<open>init\<close> is the chain start, open connection, log; without one it is
  \<^verbatim>\<open>node.start()\<close>. The effects are in the order in which they happen: what the
  callback does itself comes before anything that waits for \<^verbatim>\<open>node.start()\<close>.
\<close>

definition directory_notice :: "node_remote \<Rightarrow> effect list" where
  "directory_notice nr =
     (if is_nullish (directory nr)
      then [ConsoleLog [JStr ''No directory specified, running without directory'']]
      else [])"

definition connected :: "oracle_opts \<Rightarrow> environment \<Rightarrow> node_remote \<Rightarrow> effect list" where
  "connected opts env nr =
     (if \<not> is_nullish (remote nr) then
        [NodeStart] @ directory_notice nr @
        (case start nr of
           None \<Rightarrow> []
         | Some (Rejected err) \<Rightarrow> then_catch opts env (Some (Rejected err))
         | Some (Fulfilled _) \<Rightarrow>
             (case get_prop (remote nr) ''remotePeerInfo'' of
                Inl exn \<Rightarrow> then_catch opts env (Some (Rejected exn))
              | Inr info \<Rightarrow>
                  OpenConnection info #
                  (case openConnection nr of
                     None \<Rightarrow> []
                   | Some (Rejected err) \<Rightarrow> then_catch opts env (Some (Rejected err))
                   | Some (Fulfilled _) \<Rightarrow>
                       ConsoleLog [JStr ''Connected to '', remotePeer opts] #
                       then_catch opts env (Some (Fulfilled Undefined)))))
      else
        [ConsoleLog [JStr ''No remote peer specified, running in detached mode''], NodeStart] @
        directory_notice nr @ then_catch opts env (start nr))"

text \<open>
  Lines 53 to 99. A rejected \<^verbatim>\<open>bootstrap\<close> runs the \<^verbatim>\<open>catch\<close> callback: it prints
  and calls \<^verbatim>\<open>process.exit(1)\<close>; should reading \<^verbatim>\<open>err.message\<close> throw (\<open>err\<close> is
  \<^verbatim>\<open>null\<close> or \<^verbatim>\<open>undefined\<close>), the callback ends there, the \<^verbatim>\<open>then\<close> after it is
  skipped, and the chain ends rejected with nothing to handle it.
\<close>

definition oracle_handler :: "oracle_opts \<Rightarrow> environment \<Rightarrow> effect list" where
  "oracle_handler opts env =
     (case bootstrap env of
        None \<Rightarrow> []
      | Some (Rejected err) \<Rightarrow>
          (case get_prop err ''message'' of
             Inl exn \<Rightarrow> [UnhandledRejection exn]
           | Inr m \<Rightarrow>
               [ConsoleError [JStr (''Error setting up aleph node: '' @ to_string m)],
                ProcessExit 1])
      | Some (Fulfilled nr) \<Rightarrow> connected opts env nr)"

subsection \<open>Log entries that name an error kind\<close>

text \<open>
  Modelled from the spec: the source has no error kinds. Section 7 names them
  (\<^verbatim>\<open>InvalidReference\<close>, \<^verbatim>\<open>ConnectionError\<close>, \<^verbatim>\<open>RejectedError\<close>,
  \<^verbatim>\<open>TimeoutExceeded\<close>); an error of a kind is an error object of that name, and a log
  entry reports a kind when one of the values it prints is such an error.
\<close>

fun is_error_named :: "string \<Rightarrow> jsval \<Rightarrow> bool" where
  "is_error_named kind (JError n m) = (n = kind)"
| "is_error_named kind v = False"

fun reports :: "string \<Rightarrow> effect \<Rightarrow> bool" where
  "reports kind (ConsoleLog args) = list_ex (is_error_named kind) args"
| "reports kind (ConsoleError args) = list_ex (is_error_named kind) args"
| "reports kind e = False"

section \<open>Sample inputs\<close>

text \<open>
  Concrete inputs for the instances below: a function table that knows \<^verbatim>\<open>sha2-256\<close>
  under its multihash code, the identifier of the eleven bytes \<^verbatim>\<open>hello world\<close>, two
  events of the shape of section 6, the options of a \<^verbatim>\<open>publishRaw\<close> call, and three
  peers: one that accepts, one that refuses the first two calls with a
  \<^verbatim>\<open>ConnectionError\<close> and accepts the third, and one that never answers.
\<close>

definition sha2_table :: names where
  "sha2_table = [(''sha2-256'', 0x12)]"

definition hello_world_id :: string where
  "hello_world_id = ''QmaozNR7DZHQK1ZcU9p7QdrshMvXqWK6gpu5rmrkPdT3L4''"

definition valid_event :: jsval where
  "valid_event = JObj [(''orderId'', JNum 1), (''contentReferenceText'', JStr hello_world_id)]"

definition malformed_event :: jsval where
  "malformed_event = JObj [(''orderId'', JNum 2), (''contentReferenceText'', JStr ''not-a-hash'')]"

definition sample_opts :: publishRaw_opts where
  "sample_opts =
     \<lparr>namespace = ''scratch.test'', peerUrl = ''http://localhost:9002'',
      statementBodyId = hello_world_id\<rparr>"

definition accepting_peer :: rest_client where
  "accepting_peer peer n ns stmt = Settled 40 (Fulfilled (JStr ''published''))"

definition flaky_peer :: rest_client where
  "flaky_peer peer n ns stmt =
     (if n < 2 then Settled 40 (Rejected (JError ''ConnectionError'' ''peer unreachable''))
      else Settled 40 (Fulfilled (JStr ''published'')))"

definition silent_peer :: rest_client where
  "silent_peer peer n ns stmt = Pending"

text \<open>A peer whose client rejects with \<^verbatim>\<open>null\<close> as the reason.\<close>

definition null_rejecting_peer :: rest_client where
  "null_rejecting_peer peer n ns stmt = Settled 40 (Rejected Null)"

text \<open>
  Two runs of the \<^verbatim>\<open>oracle\<close> command without a remote peer and without a directory:
  in the first the node starts and the Ethereum RPC endpoint is unreachable, in the second
  \<^verbatim>\<open>node.start()\<close> is rejected.
\<close>

definition local_opts :: oracle_opts where
  "local_opts = \<lparr>remotePeer = Undefined, rpc = ''http://localhost:8545''\<rparr>"

definition rpc_down :: environment where
  "rpc_down =
     \<lparr>bootstrap = Some (Fulfilled \<lparr>remote = Null, directory = Null,
                                    start = Some (Fulfilled Undefined), openConnection = None\<rparr>),
      constructors_throw = None, isConnected = False\<rparr>"

definition node_down :: environment where
  "node_down =
     \<lparr>bootstrap = Some (Fulfilled \<lparr>remote = Null, directory = Null,
                                    start = Some (Rejected (JError ''Error'' ''listen EADDRINUSE'')),
                                    openConnection = None\<rparr>),
      constructors_throw = None, isConnected = True\<rparr>"

section \<open>Positional numbers and the base58 codec\<close>

lemma value_le_digits_le: "2 \<le> b \<Longrightarrow> value_le b (digits_le b n) = n"
proof (induction b n rule: digits_le.induct)
  case (1 b n)
  then show ?case by (subst digits_le.simps) auto
qed

lemma digits_le_lt: "d \<in> set (digits_le b n) \<Longrightarrow> d < b"
proof (induction b n rule: digits_le.induct)
  case (1 b n)
  from 1(2) show ?case
    by (subst (asm) digits_le.simps) (use 1(1) in \<open>auto split: if_splits\<close>)
qed

lemma digits_le_0 [simp]: "digits_le b 0 = []"
  by (subst digits_le.simps) simp

lemma digits_le_value_le:
  "2 \<le> b \<Longrightarrow> list_all (\<lambda>d. d < b) ds \<Longrightarrow> ds = [] \<or> last ds \<noteq> 0 \<Longrightarrow>
   digits_le b (value_le b ds) = ds"
proof (induction ds)
  case Nil
  then show ?case by simp
next
  case (Cons d ds)
  have db: "d < b" using Cons.prems(2) by simp
  have nz: "d + b * value_le b ds \<noteq> 0"
  proof (cases "ds = []")
    case True
    then show ?thesis using Cons.prems(3) by simp
  next
    case False
    then have "last ds \<noteq> 0" using Cons.prems(3) by simp
    with False Cons have "digits_le b (value_le b ds) = ds" by simp
    with False have "value_le b ds \<noteq> 0" by (metis digits_le_0)
    then show ?thesis using Cons.prems(1) by simp
  qed
  have tl: "digits_le b (value_le b ds) = ds"
    using Cons by (cases "ds = []") auto
  have "digits_le b (d + b * value_le b ds) =
        ((d + b * value_le b ds) mod b) # digits_le b ((d + b * value_le b ds) div b)"
    using nz Cons.prems(1) by (subst digits_le.simps) simp
  also have "(d + b * value_le b ds) mod b = d" using db by simp
  also have "(d + b * value_le b ds) div b = value_le b ds" using db by simp
  finally show ?case using tl by simp
qed

lemma digits_le_last: "2 \<le> b \<Longrightarrow> 0 < n \<Longrightarrow> last (digits_le b n) \<noteq> 0"
proof (induction b n rule: digits_le.induct)
  case (1 b n)
  show ?case
  proof (cases "n div b = 0")
    case True
    then have "n < b" using 1(2) by (simp add: div_eq_0_iff)
    then have "digits_le b n = [n]" using 1(2,3) by (subst digits_le.simps) simp
    then show ?thesis using 1(3) by simp
  next
    case False
    then have ne: "digits_le b (n div b) \<noteq> []" using 1(2) by (subst digits_le.simps) simp
    have "digits_le b n = (n mod b) # digits_le b (n div b)"
      using 1(2,3) by (subst digits_le.simps) simp
    then have "last (digits_le b n) = last (digits_le b (n div b))" using ne by simp
    then show ?thesis using 1 False by simp
  qed
qed

lemma value_le_append_zeros: "value_le b (ds @ replicate k 0) = value_le b ds"
  by (induction ds) (auto, induction k, auto)

lemma index_of_nth: "distinct xs \<Longrightarrow> i < length xs \<Longrightarrow> index_of (xs ! i) xs = Some i"
proof (induction xs arbitrary: i)
  case Nil
  then show ?case by simp
next
  case (Cons x xs)
  then show ?case by (cases i) auto
qed

lemma index_of_None: "index_of x xs = None \<longleftrightarrow> x \<notin> set xs"
  by (induction xs) auto

lemma those_map_Some:
  "list_all (\<lambda>x. f x = Some (g x)) xs \<Longrightarrow> those (map f xs) = Some (map g xs)"
  by (induction xs) auto

lemma those_None: "x \<in> set xs \<Longrightarrow> f x = None \<Longrightarrow> those (map f xs) = None"
  by (induction xs) (auto split: option.splits)

lemma distinct_ALPHABET: "distinct ALPHABET"
  by (simp add: ALPHABET_def)

lemma length_ALPHABET: "length ALPHABET = 58"
  by (simp add: ALPHABET_def)

lemma ALPHABET_0: "ALPHABET ! 0 = CHR ''1''"
  by (simp add: ALPHABET_def)

lemma ALPHABET_leader: "d < 58 \<Longrightarrow> ALPHABET ! d = CHR ''1'' \<longleftrightarrow> d = 0"
  using distinct_ALPHABET length_ALPHABET ALPHABET_0
  by (metis nth_eq_iff_index_eq zero_less_numeral)

lemma takeWhile_replicate_append:
  "ys = [] \<or> hd ys \<noteq> x \<Longrightarrow> takeWhile (\<lambda>c. c = x) (replicate k x @ ys) = replicate k x"
  by (induction k) (auto simp: takeWhile_eq_Nil_iff)

lemma zeros_split:
  "source = replicate (length (takeWhile (\<lambda>b. b = 0) source)) (0::byte) @
            dropWhile (\<lambda>b. b = 0) source"
proof -
  have "takeWhile (\<lambda>b. b = 0) source =
        replicate (length (takeWhile (\<lambda>b. b = 0) source)) (0::byte)"
    by (induction source) auto
  then show ?thesis by (metis takeWhile_dropWhile_id)
qed

lemma unat_byte_lt: "list_all (\<lambda>d. d < 256) (map unat (bs :: buffer))"
proof -
  have "unat (b :: byte) < 256" for b
    using unsigned_less [of b] by simp
  then show ?thesis by (simp add: list_all_iff)
qed

text \<open>Decoding inverts encoding, for every byte string.\<close>

lemma bs58_roundtrip: "bs58_decode (bs58_encode source) = Inr source"
proof -
  define k where "k = length (takeWhile (\<lambda>b. b = 0) source)"
  define r where "r = dropWhile (\<lambda>b. b = 0) source"
  define n where "n = value_be 256 (map unat source)"
  define D where "D = rev (digits_le 58 n)"
  have src: "source = replicate k 0 @ r"
    unfolding k_def r_def by (rule zeros_split)
  have r_hd: "r = [] \<or> hd r \<noteq> 0"
    unfolding r_def by (metis (mono_tags, lifting) hd_dropWhile)
  have n_r: "n = value_le 256 (rev (map unat r))"
    unfolding n_def value_be_def by (subst src) (simp add: value_le_append_zeros)
  have D_lt: "list_all (\<lambda>d. d < 58) D"
    unfolding D_def by (auto simp: list_all_iff dest: digits_le_lt)
  have D_hd: "D = [] \<or> hd D \<noteq> 0"
  proof (cases "n = 0")
    case True
    then show ?thesis by (simp add: D_def)
  next
    case False
    then have "last (digits_le 58 n) \<noteq> 0" by (simp add: digits_le_last)
    moreover from False have "digits_le 58 n \<noteq> []" by (subst digits_le.simps) simp
    ultimately show ?thesis by (simp add: D_def hd_rev)
  qed
  have enc: "bs58_encode source = replicate k (CHR ''1'') @ map (\<lambda>d. ALPHABET ! d) D"
    by (simp add: bs58_encode_def k_def D_def n_def)
  have idx: "those (map (\<lambda>c. index_of c ALPHABET) (bs58_encode source)) = Some (replicate k 0 @ D)"
  proof -
    have "list_all (\<lambda>d. index_of (ALPHABET ! d) ALPHABET = Some d) (replicate k 0 @ D)"
      using D_lt by (auto simp: list_all_iff index_of_nth distinct_ALPHABET length_ALPHABET)
    then have "those (map (\<lambda>c. index_of c ALPHABET) (map (\<lambda>d. ALPHABET ! d) (replicate k 0 @ D)))
               = Some (map (\<lambda>d. d) (replicate k 0 @ D))"
      unfolding map_map comp_def by (rule those_map_Some)
    then show ?thesis by (simp add: enc ALPHABET_0)
  qed
  have lead: "takeWhile (\<lambda>c. c = CHR ''1'') (bs58_encode source) = replicate k (CHR ''1'')"
  proof -
    have "map (\<lambda>d. ALPHABET ! d) D = [] \<or> hd (map (\<lambda>d. ALPHABET ! d) D) \<noteq> CHR ''1''"
    proof (cases D)
      case Nil
      then show ?thesis by simp
    next
      case (Cons d ds)
      with D_lt D_hd have "d < 58" "d \<noteq> 0" by auto
      then show ?thesis using Cons by (simp add: ALPHABET_leader)
    qed
    then show ?thesis unfolding enc by (rule takeWhile_replicate_append)
  qed
  have val: "value_be 58 (replicate k 0 @ D) = n"
    by (simp add: value_be_def D_def value_le_append_zeros value_le_digits_le)
  have dig: "digits_le 256 n = rev (map unat r)"
  proof -
    have "list_all (\<lambda>d. d < 256) (rev (map unat r))"
      using unat_byte_lt [of r] by (simp add: list_all_iff)
    moreover have "rev (map unat r) = [] \<or> last (rev (map unat r)) \<noteq> 0"
      using r_hd by (cases r) (auto simp: unat_eq_0)
    ultimately show ?thesis unfolding n_r by (intro digits_le_value_le) auto
  qed
  have bytes_again: "map of_nat (rev (digits_le 256 n)) = r"
    by (simp add: dig comp_def map_idI)
  have "bs58_decode (bs58_encode source) = Inr (replicate k 0 @ r)"
    unfolding bs58_decode_def idx by (simp add: lead val bytes_again)
  with src show ?thesis by simp
qed

lemma bs58_decode_bad_char:
  "c \<in> set str \<Longrightarrow> c \<notin> set ALPHABET \<Longrightarrow> bs58_decode str = Inl NonBase58Character"
  by (simp add: bs58_decode_def those_None [of c] index_of_None)

lemma fromB58String_toB58String: "fromB58String (toB58String h) = Inr h"
  by (simp add: fromB58String_def toB58String_def bs58_roundtrip)

lemma length_sha256: "length (sha256 msg) = 32"
proof -
  obtain a b c d e f g h where
    "foldl compress_block initial_state (blocks (length (pad msg) div 64) (pad msg)) =
     (a, b, c, d, e, f, g, h)"
    by (metis surj_pair)
  then show ?thesis by (simp add: sha256_def bytes_of_word_def)
qed

section \<open>Validation of content references\<close>

lemma isB58Multihash_unfold:
  "isB58Multihash names str =
     Inr (case fromB58String str of Inl e \<Rightarrow> False | Inr h \<Rightarrow> validate names h = Inr ())"
  by (auto simp: isB58Multihash_def try_catch_def thenE_def split: sum.splits)

lemma isB58Multihash_toB58String:
  "isB58Multihash names (toB58String h) = Inr (validate names h = Inr ())"
  by (simp add: isB58Multihash_unfold fromB58String_toB58String)

lemma map_of_isValidCode: "map_of names name = Some code \<Longrightarrow> isValidCode names code"
  by (auto simp: isValidCode_def dest: map_of_SomeD intro: rev_image_eqI)

lemma validate_encoded:
  assumes "isValidCode names code" and "1 \<le> length d" and "length d \<le> 127"
  shows "validate names (code # of_nat (length d) # d) = Inr ()"
proof -
  have "unat (of_nat (length d) :: byte) = length d"
    using assms(3) by (simp add: unat_of_nat)
  moreover have "d \<noteq> []" using assms(2) by auto
  ultimately show ?thesis using assms by (simp add: validate_def)
qed

lemma validate_take:
  assumes "validate names h = Inr ()" and "n < length h"
  shows "validate names (take n h) \<noteq> Inr ()"
proof (cases "n < 3")
  case True
  then have "length (take n h) < 3" using assms(2) by simp
  then show ?thesis by (simp only: validate_def if_True) simp
next
  case False
  from assms(1) have len: "length h - 2 = unat (h ! 1)"
    by (simp add: validate_def split: if_splits)
  have "take n h ! 1 = h ! 1" using False by simp
  moreover have "length (drop 2 (take n h)) = n - 2" using assms(2) by simp
  ultimately have "length (drop 2 (take n h)) \<noteq> unat (take n h ! 1)"
    using len assms(2) False by simp
  then have "validate names (take n h) \<in> {Inl TooShort, Inl TooLong,
      Inl (UnknownFunctionCode (hd (take n h))), Inl LengthInconsistent}"
    unfolding validate_def by (simp only: if_True if_False split: if_split) simp
  then show ?thesis by auto
qed

lemma validate_unknown_code: "\<not> isValidCode names (hd h) \<Longrightarrow> validate names h \<noteq> Inr ()"
  by (simp add: validate_def)

text \<open>
  Claim C3. For every byte sequence, parsing the base58 text that \<open>digestOf\<close> produces
  succeeds and yields the very reference \<open>digestOf\<close> returned, and \<open>isB58Multihash\<close>
  accepts that text. The function table must know the name \<^verbatim>\<open>sha2-256\<close>, which the
  source passes to \<^verbatim>\<open>Multihash.encode\<close>; the code it maps to is arbitrary.
\<close>

theorem digest_parse_roundtrip:
  assumes "map_of names ''sha2-256'' = Some code"
  shows "\<exists>ref. digestOf names bytes = Inr ref \<and>
               parse names (textEncoding ref) = Inr ref \<and>
               isB58Multihash names (textEncoding ref) = Inr True"
proof -
  let ?mh = "code # 32 # sha256 bytes"
  let ?ref = "\<lparr>hashFunction = code, digestBytes = sha256 bytes, textEncoding = toB58String ?mh\<rparr>"
  have enc: "Multihash_encode names (sha256 bytes) ''sha2-256'' = Inr ?mh"
    using assms by (simp add: Multihash_encode_def coerceCode_def thenE_def length_sha256)
  have b58: "b58MultihashForBuffer names bytes = Inr (toB58String ?mh)"
    by (simp add: b58MultihashForBuffer_def enc thenE_def)
  have valid: "validate names ?mh = Inr ()"
    using validate_encoded [of names code "sha256 bytes"] map_of_isValidCode [OF assms]
    by (simp add: length_sha256)
  have "digestOf names bytes = Inr ?ref"
    using assms by (simp add: digestOf_def coerceCode_def b58 thenE_def)
  moreover have "parse names (toB58String ?mh) = Inr ?ref"
    by (simp add: parse_def fromB58String_toB58String valid thenE_def)
  moreover have "isB58Multihash names (toB58String ?mh) = Inr True"
    by (simp add: isB58Multihash_toB58String valid)
  ultimately show ?thesis by simp
qed

text \<open>
  Witness for C3: the table that maps \<^verbatim>\<open>sha2-256\<close> to 0x12 and the three bytes
  \<^verbatim>\<open>abc\<close>.
\<close>

theorem digest_parse_roundtrip_witness:
  "map_of sha2_table ''sha2-256'' = Some 0x12 \<and>
   (\<exists>ref. digestOf sha2_table [0x61, 0x62, 0x63] = Inr ref \<and>
          parse sha2_table (textEncoding ref) = Inr ref \<and>
          isB58Multihash sha2_table (textEncoding ref) = Inr True)"
proof -
  have known: "map_of sha2_table ''sha2-256'' = Some 0x12"
    by (simp add: sha2_table_def)
  from known digest_parse_roundtrip [OF known, of "[0x61, 0x62, 0x63]"]
  show ?thesis by blast
qed

text \<open>
  Claim C4. \<open>isB58Multihash\<close> returns a boolean for every string and never throws; it
  returns false for the empty string, for a string with a character outside the base58
  alphabet, for the text of a valid multihash cut short (any proper prefix of its bytes),
  and for the text of a multihash whose function code the table does not recognise. A
  valid text cut short by a character is the lemma \<open>truncated_id_invalid\<close> below.
\<close>

theorem isB58Multihash_total_and_rejects:
  "(\<exists>b. isB58Multihash names str = Inr b) \<and>
   isB58Multihash names [] = Inr False \<and>
   ((\<exists>c \<in> set str. c \<notin> set ALPHABET) \<longrightarrow> isB58Multihash names str = Inr False) \<and>
   (validate names h = Inr () \<and> n < length h \<longrightarrow>
      isB58Multihash names (toB58String (take n h)) = Inr False) \<and>
   (\<not> isValidCode names (hd h') \<longrightarrow> isB58Multihash names (toB58String h') = Inr False)"
proof (intro conjI impI)
  show "\<exists>b. isB58Multihash names str = Inr b"
    by (simp add: isB58Multihash_unfold)
  show "isB58Multihash names [] = Inr False"
    by (simp add: isB58Multihash_unfold fromB58String_def bs58_decode_def validate_def value_be_def)
  show "isB58Multihash names str = Inr False" if "\<exists>c \<in> set str. c \<notin> set ALPHABET"
    using that by (auto simp: isB58Multihash_unfold fromB58String_def bs58_decode_bad_char)
  show "isB58Multihash names (toB58String (take n h)) = Inr False"
    if "validate names h = Inr () \<and> n < length h"
    using that validate_take [of names h n] by (simp add: isB58Multihash_toB58String)
  show "isB58Multihash names (toB58String h') = Inr False" if "\<not> isValidCode names (hd h')"
    using that validate_unknown_code [of names h'] by (simp add: isB58Multihash_toB58String)
qed

text \<open>
  Witness for C4: \<^verbatim>\<open>not-a-hash\<close>, the multihash of the empty input cut after 20 of
  its 34 bytes, and three bytes that start with the unassigned code 0x99.
\<close>

theorem isB58Multihash_total_and_rejects_witness:
  "(\<exists>c \<in> set ''not-a-hash''. c \<notin> set ALPHABET) \<and>
   isB58Multihash sha2_table ''not-a-hash'' = Inr False \<and>
   validate sha2_table (0x12 # 32 # sha256 []) = Inr () \<and>
   20 < length (0x12 # 32 # sha256 []) \<and>
   isB58Multihash sha2_table (toB58String (take 20 (0x12 # 32 # sha256 []))) = Inr False \<and>
   \<not> isValidCode sha2_table (hd [0x99, 1, 7]) \<and>
   isB58Multihash sha2_table (toB58String [0x99, 1, 7]) = Inr False"
proof -
  have bad: "\<exists>c \<in> set ''not-a-hash''. c \<notin> set ALPHABET"
    by (simp add: ALPHABET_def)
  have valid: "validate sha2_table (0x12 # 32 # sha256 []) = Inr ()"
    using validate_encoded [of sha2_table "0x12" "sha256 []"]
    by (simp add: length_sha256 isValidCode_def sha2_table_def)
  have len: "20 < length (0x12 # 32 # sha256 [])"
    by (simp add: length_sha256)
  have code: "\<not> isValidCode sha2_table (hd [0x99, 1, 7])"
    by (simp add: isValidCode_def isAppCode_def sha2_table_def)
  show ?thesis
    using isB58Multihash_total_and_rejects
      [of sha2_table "''not-a-hash''" "0x12 # 32 # sha256 []" 20 "[0x99, 1, 7]"]
      bad valid len code
    by blast
qed

section \<open>The sample identifiers\<close>

text \<open>
  The sample identifier decodes to the code 0x12, the length 32 and a digest of 32 bytes
  (b94d27b9...cde9, the SHA-256 digest of \<^verbatim>\<open>hello world\<close>), and is valid under the
  sample table.
\<close>

lemma decode_hello_world_id:
  "bs58_decode ''QmaozNR7DZHQK1ZcU9p7QdrshMvXqWK6gpu5rmrkPdT3L4'' =
   Inr [18, 32, 185, 77, 39, 185, 147, 77, 62, 8, 165, 46, 82, 215, 218, 125, 171, 250, 196, 132,
        239, 227, 122, 83, 128, 238, 144, 136, 247, 172, 226, 239, 205, 233]"
  by (simp add: bs58_decode_def ALPHABET_def value_be_def digits_le.simps)

lemma hello_world_id_valid: "isB58Multihash sha2_table hello_world_id = Inr True"
  by (simp add: isB58Multihash_def try_catch_def thenE_def fromB58String_def hello_world_id_def
      decode_hello_world_id validate_def isValidCode_def sha2_table_def)

text \<open>
  The same identifier without its last character is rejected under every table: it
  decodes to 33 bytes of which the second, the declared length, is 3.
\<close>

lemma decode_truncated_id:
  "bs58_decode ''QmaozNR7DZHQK1ZcU9p7QdrshMvXqWK6gpu5rmrkPdT3L'' =
   Inr [80, 3, 49, 225, 201, 209, 252, 235, 0, 38, 40, 133, 215, 149, 108, 25, 8,
        188, 196, 127, 184, 227, 54, 103, 189, 126, 20, 4, 69, 48, 12, 246, 79]"
  by (simp add: bs58_decode_def ALPHABET_def value_be_def digits_le.simps)

lemma truncated_id_invalid: "isB58Multihash names (butlast hello_world_id) = Inr False"
  by (simp add: isB58Multihash_def try_catch_def thenE_def fromB58String_def hello_world_id_def
      decode_truncated_id validate_def)

lemma not_a_hash_invalid: "isB58Multihash names ''not-a-hash'' = Inr False"
proof -
  have "bs58_decode ''not-a-hash'' = Inl NonBase58Character"
    by (rule bs58_decode_bad_char [of "CHR ''-''"]) (simp_all add: ALPHABET_def)
  then show ?thesis
    by (simp add: isB58Multihash_def try_catch_def thenE_def fromB58String_def)
qed

section \<open>\<^verbatim>\<open>promiseHash\<close>\<close>

lemma read_items_distinct:
  "distinct (map fst hash) \<Longrightarrow> map (read_item hash) (map fst hash) = map snd hash"
  by (auto simp: read_item_def)

lemma first_rejection_None:
  "list_all2 (\<lambda>p v. \<exists>t. p = Settled t (Fulfilled v)) ps vs \<Longrightarrow> first_rejection ps = None"
  by (induction rule: list_all2_induct) auto

lemma those_fulfilment:
  "list_all2 (\<lambda>p v. \<exists>t. p = Settled t (Fulfilled v)) ps vs \<Longrightarrow>
   \<exists>tvs. those (map fulfilment ps) = Some tvs \<and> map snd tvs = vs"
  by (induction rule: list_all2_induct) auto

lemma Promise_all_fulfilled:
  assumes "list_all2 (\<lambda>p v. \<exists>t. p = Settled t (Fulfilled v)) ps vs"
  shows "\<exists>t. Promise_all ps = Settled t (Fulfilled vs)"
  using first_rejection_None [OF assms] those_fulfilment [OF assms]
  by (auto simp: Promise_all_def)

lemma update_fresh: "k \<notin> fst ` set al \<Longrightarrow> AList.update k v al = al @ [(k, v)]"
  by (induction al) auto

lemma foldl_assign_enumerate:
  "length vs \<le> length ks - n \<Longrightarrow>
   foldl (\<lambda>result (idx, r). assign result (key_at ks idx) r) acc (enumerate n vs) =
   foldl (\<lambda>result (k, r). assign result k r) acc (zip (drop n ks) vs)"
proof (induction vs arbitrary: acc n)
  case Nil
  then show ?case by simp
next
  case (Cons v vs)
  then have n: "n < length ks" by simp
  then have "drop n ks = ks ! n # drop (Suc n) ks" by (simp add: Cons_nth_drop_Suc)
  moreover have "length vs \<le> length ks - Suc n" using Cons.prems by simp
  ultimately show ?case using Cons.IH [of "Suc n"] n by (simp add: key_at_def)
qed

lemma foldl_assign_fresh:
  "length ks = length vs \<Longrightarrow> distinct (map fst acc @ ks) \<Longrightarrow> ''__proto__'' \<notin> set ks \<Longrightarrow>
   foldl (\<lambda>result (k, r). assign result k r) acc (zip ks vs) = acc @ zip ks vs"
proof (induction ks vs arbitrary: acc rule: list_induct2)
  case Nil
  then show ?case by simp
next
  case (Cons k ks v vs)
  have "assign acc k v = acc @ [(k, v)]"
    using Cons.prems by (auto simp: assign_def intro!: update_fresh)
  moreover have "distinct (map fst (acc @ [(k, v)]) @ ks)" using Cons.prems by auto
  ultimately show ?case using Cons.IH [of "acc @ [(k, v)]"] Cons.prems by simp
qed

lemma promiseHash_distinct:
  assumes "distinct (map fst hash)"
  shows "promiseHash hash =
         then_p (\<lambda>resolved. JObj (foldl (\<lambda>result (idx, r). assign result (key_at (map fst hash) idx) r) []
                                   (enumerate 0 resolved)))
           (Promise_all (map resolve_item (map snd hash)))"
  unfolding promiseHash_def Let_def Object_keys_def read_items_distinct [OF assms] ..

text \<open>
  When every entry is fulfilled, the result is fulfilled with an object that has the keys
  of \<open>hash\<close>, in the same order, each holding the value its entry was fulfilled with;
  provided no key is \<^verbatim>\<open>__proto__\<close>.
\<close>

lemma promiseHash_fulfilled:
  assumes "distinct (map fst hash)" and "''__proto__'' \<notin> set (map fst hash)"
    and "list_all2 (\<lambda>entry v. \<exists>t. resolve_item (snd entry) = Settled t (Fulfilled v)) hash vs"
  shows "\<exists>t. promiseHash hash = Settled t (Fulfilled (JObj (zip (map fst hash) vs)))"
proof -
  have len: "length vs = length hash"
    using assms(3) by (simp add: list_all2_lengthD)
  have "list_all2 (\<lambda>p v. \<exists>t. p = Settled t (Fulfilled v)) (map resolve_item (map snd hash)) vs"
    using assms(3) by (simp add: list_all2_map1)
  then obtain t where all: "Promise_all (map resolve_item (map snd hash)) = Settled t (Fulfilled vs)"
    using Promise_all_fulfilled by blast
  have "foldl (\<lambda>result (idx, r). assign result (key_at (map fst hash) idx) r) [] (enumerate 0 vs)
        = zip (map fst hash) vs"
    using foldl_assign_enumerate [of vs "map fst hash" 0 "[]"]
      foldl_assign_fresh [of "map fst hash" vs "[]"] assms(1,2) len
    by simp
  then show ?thesis
    unfolding promiseHash_distinct [OF assms(1)] all by simp
qed

lemma first_rejection_earliest:
  assumes "i < length ps" and "ps ! i = Settled t (Rejected e)"
    and "\<forall>j<length ps. \<forall>t' e'. ps ! j = Settled t' (Rejected e') \<longrightarrow> t < t' \<or> (t = t' \<and> i \<le> j)"
  shows "first_rejection ps = Some (t, e)"
  using assms
proof (induction ps arbitrary: i)
  case Nil
  then show ?case by simp
next
  case (Cons p ps)
  show ?case
  proof (cases i)
    case 0
    with Cons.prems(2) have p: "p = Settled t (Rejected e)" by simp
    have later: "t \<le> t'" if "first_rejection ps = Some (t', e')" for t' e'
    proof -
      have "\<exists>j<length ps. ps ! j = Settled t' (Rejected e')"
        using that
      proof (induction ps arbitrary: t' e')
        case Nil
        then show ?case by simp
      next
        case (Cons q qs)
        show ?case
        proof (cases "\<exists>u x. q = Settled u (Rejected x)")
          case True
          then obtain u x where q: "q = Settled u (Rejected x)" by blast
          show ?thesis
          proof (cases "first_rejection qs")
            case None
            with Cons.prems q show ?thesis by auto
          next
            case (Some a)
            obtain u' x' where a: "a = (u', x')" by (cases a)
            show ?thesis
            proof (cases "u \<le> u'")
              case True
              with Cons.prems q Some a show ?thesis by auto
            next
              case False
              with Cons.prems q Some a have "first_rejection qs = Some (t', e')" by auto
              with Cons.IH obtain j where "j < length qs" "qs ! j = Settled t' (Rejected e')" by blast
              then show ?thesis by (intro exI [of _ "Suc j"]) simp
            qed
          qed
        next
          case False
          then have "first_rejection (q # qs) = first_rejection qs"
            by (cases q) (auto split: outcome.splits)
          with Cons.prems have "first_rejection qs = Some (t', e')" by simp
          with Cons.IH obtain j where "j < length qs" "qs ! j = Settled t' (Rejected e')" by blast
          then show ?thesis by (intro exI [of _ "Suc j"]) simp
        qed
      qed
      then obtain j where "j < length ps" "ps ! j = Settled t' (Rejected e')" by blast
      then have "(p # ps) ! Suc j = Settled t' (Rejected e')" "Suc j < length (p # ps)" by auto
      with Cons.prems(3) 0 show ?thesis by (metis le_eq_less_or_eq)
    qed
    show ?thesis using p later by (auto split: option.splits)
  next
    case (Suc k)
    have k: "k < length ps" "ps ! k = Settled t (Rejected e)"
      using Cons.prems(1,2) Suc by auto
    have "\<forall>j<length ps. \<forall>t' e'. ps ! j = Settled t' (Rejected e') \<longrightarrow> t < t' \<or> (t = t' \<and> k \<le> j)"
    proof (intro allI impI)
      fix j t' e'
      assume "j < length ps" "ps ! j = Settled t' (Rejected e')"
      then have "Suc j < length (p # ps)" "(p # ps) ! Suc j = Settled t' (Rejected e')" by auto
      with Cons.prems(3) have "t < t' \<or> (t = t' \<and> i \<le> Suc j)" by blast
      then show "t < t' \<or> (t = t' \<and> k \<le> j)" using Suc by auto
    qed
    with Cons.IH k have rest: "first_rejection ps = Some (t, e)" by blast
    have "t < t'" if "p = Settled t' (Rejected e')" for t' e'
    proof -
      have "(p # ps) ! 0 = Settled t' (Rejected e')" "0 < length (p # ps)" using that by auto
      with Cons.prems(3) have "t < t' \<or> (t = t' \<and> i \<le> 0)" by blast
      then show ?thesis using Suc by auto
    qed
    then show ?thesis using rest by (cases p) (auto split: outcome.splits)
  qed
qed

text \<open>
  First failure wins: the result is rejected with the reason of the entry that is rejected
  first, at that time, whatever the other entries do, pending ones included.
\<close>

lemma promiseHash_first_failure:
  assumes "distinct (map fst hash)" and "i < length hash"
    and "resolve_item (snd (hash ! i)) = Settled t (Rejected e)"
    and "\<forall>j<length hash. \<forall>t' e'. resolve_item (snd (hash ! j)) = Settled t' (Rejected e') \<longrightarrow>
           t < t' \<or> (t = t' \<and> i \<le> j)"
  shows "promiseHash hash = Settled t (Rejected e)"
proof -
  have "first_rejection (map resolve_item (map snd hash)) = Some (t, e)"
    using assms(2,3,4) by (intro first_rejection_earliest [of i]) auto
  then show ?thesis
    unfolding promiseHash_distinct [OF assms(1)] by (simp add: Promise_all_def)
qed

text \<open>
  Claim C5. \<open>promiseHash\<close> is said to resolve, when every operation succeeds, to a map
  with exactly the keys of its argument, each holding the resolved value, and to fail
  with the first failure without waiting for operations that never complete. The two
  lemmas above prove this for every hash without the key \<^verbatim>\<open>__proto__\<close>. For a hash
  that has this key as an own property (as \<^verbatim>\<open>JSON.parse('{"a": 1, "__proto__": 2}')\<close>
  returns) the result lacks it: the source's doc comment promises "the same keys as
  \<^verbatim>\<open>hash\<close>", and the code returns an object with the key \<^verbatim>\<open>a\<close> alone.
\<close>

theorem promiseHash_loses_proto_key:
  "promiseHash [(''a'', Plain (JNum 1)), (''__proto__'', Plain (JNum 2))] =
     Settled 0 (Fulfilled (JObj [(''a'', JNum 1)])) \<and>
   Object_keys [(''a'', Plain (JNum 1)), (''__proto__'', Plain (JNum 2))] = [''a'', ''__proto__'']"
  by (simp add: promiseHash_def Object_keys_def read_item_def Promise_all_def assign_def
      key_at_def enumerate_eq_zip)

section \<open>\<^verbatim>\<open>promiseTimeout\<close>\<close>

lemma show_int_10: "show_int 10 = ''10''"
  by (simp add: show_int_def show_nat_def digits_le.simps)

text \<open>The race: whichever of the promise and the timer settles first decides.\<close>

lemma promiseTimeout_before_timer:
  "t < setTimeout_delay timeout \<Longrightarrow> promiseTimeout timeout (Settled t r) = Settled t r"
  by (simp add: promiseTimeout_def)

lemma promiseTimeout_timer_first:
  assumes "promise = Pending \<or> (promise = Settled t r \<and> setTimeout_delay timeout < t)"
  shows "promiseTimeout timeout promise =
         Settled (setTimeout_delay timeout) (Rejected (timeout_error timeout))"
  using assms by (auto simp: promiseTimeout_def)

lemma promiseTimeout_settles:
  "\<exists>t' r. promiseTimeout timeout p = Settled t' r \<and> t' \<le> setTimeout_delay timeout"
proof (cases p)
  case Pending
  then show ?thesis by (simp add: promiseTimeout_def)
next
  case (Settled u r)
  then show ?thesis by (simp add: promiseTimeout_def)
qed

text \<open>
  For a timeout in the range of Node's timers, 1 to \<open>2^31 - 1\<close> milliseconds, the timer
  fires after \<open>timeout\<close> milliseconds, and the claim holds as it is written: a promise
  that settles before the timeout keeps its own outcome, and one that settles later, or
  never, is rejected at the timeout with an error whose message carries it. A promise
  that takes 1000 ms under a timeout of 10 ms is rejected at 10 ms.
\<close>

lemma promiseTimeout_in_range:
  assumes "1 \<le> sint timeout" and "sint timeout \<le> 2147483647"
  shows "int t < sint timeout \<Longrightarrow> promiseTimeout timeout (Settled t r) = Settled t r"
    and "promise = Pending \<or> (promise = Settled t r \<and> sint timeout < int t) \<Longrightarrow>
         promiseTimeout timeout promise =
           Settled (nat (sint timeout))
             (Rejected (JError ''Error'' (''Timeout of '' @ show_int (sint timeout) @ ''ms exceeded'')))"
proof -
  have delay: "setTimeout_delay timeout = nat (sint timeout)"
    using assms by (simp add: setTimeout_delay_def)
  show "promiseTimeout timeout (Settled t r) = Settled t r" if "int t < sint timeout"
    using that by (intro promiseTimeout_before_timer) (simp add: delay)
  show "promiseTimeout timeout promise =
      Settled (nat (sint timeout))
        (Rejected (JError ''Error'' (''Timeout of '' @ show_int (sint timeout) @ ''ms exceeded'')))"
    if "promise = Pending \<or> (promise = Settled t r \<and> sint timeout < int t)"
  proof -
    from that assms(1)
    have "promise = Pending \<or> (promise = Settled t r \<and> setTimeout_delay timeout < t)"
      unfolding delay by auto
    from promiseTimeout_timer_first [OF this] show ?thesis
      by (simp add: delay timeout_error_def)
  qed
qed

lemma promiseTimeout_10ms:
  "promiseTimeout 10 (Settled 1000 r) =
     Settled 10 (Rejected (JError ''Error'' ''Timeout of 10ms exceeded''))"
  by (simp add: promiseTimeout_def timeout_error_def setTimeout_delay_def show_int_10)

text \<open>
  Claim C6. \<open>promiseTimeout\<close> is said to resolve to the wrapped operation's own result
  whenever the operation settles before the timeout, and to fail with the timeout error
  whenever the timer fires first. The lemmas above prove this for every timeout from 1
  to \<open>2^31 - 1\<close> milliseconds. Beyond that range the code passes the timeout to
  \<^verbatim>\<open>setTimeout\<close> unchanged, and the timer fires after 1 millisecond: under a timeout of
  \<open>2^31\<close> = 2147483648 ms an operation that is fulfilled after 20 ms, long before the
  timeout, is rejected after 1 ms. The source's doc comment says the result "will resolve
  to the value of \<^verbatim>\<open>promise\<close>, unless the timeout is exceeded".
\<close>

theorem promiseTimeout_fires_early:
  "(20 :: int) < sint (2147483648 :: js_integer) \<and>
   promiseTimeout 2147483648 (Settled 20 (Fulfilled (JStr ''done''))) =
     Settled 1 (Rejected (JError ''Error'' ''Timeout of 2147483648ms exceeded''))"
  by (simp add: promiseTimeout_def timeout_error_def setTimeout_delay_def show_int_def
      show_nat_def digits_le.simps)

section \<open>The order-placed handler\<close>

text \<open>
  Claim C1 says that an event whose \<^verbatim>\<open>contentReferenceText\<close> is a valid base58
  multihash makes the watcher call publish exactly once. Counterexample: for the event
  that carries the identifier of \<^verbatim>\<open>hello world\<close> the handler calls publish not at
  all; it prints the event.
\<close>

theorem orderPlacedHandler_valid_event_counterexample:
  "get_prop valid_event ''contentReferenceText'' = Inr (JStr hello_world_id) \<and>
   isB58Multihash sha2_table hello_world_id = Inr True \<and>
   length (filter is_Publish (orderPlacedHandler Null valid_event)) = 0 \<and>
   orderPlacedHandler Null valid_event = [ConsoleLog [valid_event]]"
  by (simp add: hello_world_id_valid orderPlacedHandler_def valid_event_def)

text \<open>
  Claim C1, amended. For every incoming event, whatever its \<^verbatim>\<open>contentReferenceText\<close>,
  and whether or not an error comes with it, the order-placed handler makes no publish
  call; an event without an error is printed with \<^verbatim>\<open>console.log\<close>, and that is all
  the handler does.
\<close>

theorem orderPlacedHandler_never_publishes:
  "filter is_Publish (orderPlacedHandler err event) = [] \<and>
   orderPlacedHandler Null event = [ConsoleLog [event]] \<and>
   orderPlacedHandler Undefined event = [ConsoleLog [event]]"
  by (simp add: orderPlacedHandler_def)

text \<open>
  Claim C2 says that an event whose \<^verbatim>\<open>contentReferenceText\<close> is not a valid
  reference is logged and dropped as \<^verbatim>\<open>InvalidReference\<close>. Counterexample: for the
  event that carries \<^verbatim>\<open>not-a-hash\<close> the one log entry is the event itself, and
  nothing the handler prints reports an \<^verbatim>\<open>InvalidReference\<close>.
\<close>

theorem orderPlacedHandler_invalid_event_counterexample:
  "get_prop malformed_event ''contentReferenceText'' = Inr (JStr ''not-a-hash'') \<and>
   isB58Multihash sha2_table ''not-a-hash'' = Inr False \<and>
   \<not> list_ex (reports ''InvalidReference'') (orderPlacedHandler Null malformed_event) \<and>
   orderPlacedHandler Null malformed_event = [ConsoleLog [malformed_event]]"
  by (simp add: not_a_hash_invalid orderPlacedHandler_def malformed_event_def)

text \<open>
  Claim C2, amended. For every incoming event object, valid or not, the handler makes
  no network call and does not end the process; it validates nothing and reports no
  \<^verbatim>\<open>InvalidReference\<close>: it prints the event as it is with \<^verbatim>\<open>console.log\<close>, or the
  error that came with it with \<^verbatim>\<open>console.error\<close>, and returns.
\<close>

theorem orderPlacedHandler_logs_and_drops:
  "\<not> list_ex is_Publish (orderPlacedHandler err (JObj props)) \<and>
   \<not> list_ex is_ProcessExit (orderPlacedHandler err (JObj props)) \<and>
   \<not> list_ex (reports ''InvalidReference'') (orderPlacedHandler Null (JObj props)) \<and>
   (if truthy err then orderPlacedHandler err (JObj props) = [ConsoleError [err]]
    else orderPlacedHandler err (JObj props) = [ConsoleLog [JObj props]])"
  by (simp add: orderPlacedHandler_def)

section \<open>The \<^verbatim>\<open>publishRaw\<close> handler\<close>

text \<open>
  Claim C7 says that a publish that fails twice with \<^verbatim>\<open>ConnectionError\<close> and then
  succeeds ends in success after exactly three network calls. Counterexample: against
  the peer that refuses the first two calls and would accept the third, the handler
  calls publish once, prints the error's message and stops.
\<close>

theorem publishRaw_no_retry_counterexample:
  "publishRaw_handler flaky_peer sample_opts =
   [(0, Publish ''http://localhost:9002'' ''scratch.test'' (JObj [(''object'', JStr hello_world_id)])),
    (40, ConsoleError [JStr ''peer unreachable''])] \<and>
   length (filter (\<lambda>te. is_Publish (snd te)) (publishRaw_handler flaky_peer sample_opts)) \<noteq> 3 \<and>
   flaky_peer ''http://localhost:9002'' 2 ''scratch.test'' (JObj [(''object'', JStr hello_world_id)]) =
     Settled 40 (Fulfilled (JStr ''published''))"
  by (simp add: publishRaw_handler_def print_message_def flaky_peer_def sample_opts_def)

lemma on_settled_console:
  "filter (\<lambda>te. is_Publish (snd te)) (on_settled (\<lambda>v. [ConsoleLog [v]]) print_message p) = [] \<and>
   \<not> list_ex (\<lambda>te. is_ProcessExit (snd te)) (on_settled (\<lambda>v. [ConsoleLog [v]]) print_message p)"
proof (cases p)
  case Pending
  then show ?thesis by simp
next
  case (Settled t r)
  then show ?thesis
    by (cases r) (auto simp: print_message_def split: sum.splits)
qed

lemma get_prop_defined: "\<not> is_nullish v \<Longrightarrow> \<exists>m. get_prop v name = Inr m"
  by (cases v) simp_all

lemma get_prop_nullish: "is_nullish v \<Longrightarrow> \<exists>exn. get_prop v name = Inl exn"
  by (cases v) simp_all

text \<open>What the handler does once the promise that publish returned is rejected.\<close>

lemma publishRaw_rejected:
  assumes "publish (peerUrl opts) 0 (namespace opts)
             (JObj [(''object'', JStr (statementBodyId opts))]) = Settled t (Rejected reason)"
  shows "\<not> is_nullish reason \<Longrightarrow>
         \<exists>m. get_prop reason ''message'' = Inr m \<and>
             publishRaw_handler publish opts =
               [(0, Publish (peerUrl opts) (namespace opts)
                      (JObj [(''object'', JStr (statementBodyId opts))])),
                (t, ConsoleError [m])]"
    and "is_nullish reason \<Longrightarrow>
         \<exists>exn. get_prop reason ''message'' = Inl exn \<and>
               publishRaw_handler publish opts =
                 [(0, Publish (peerUrl opts) (namespace opts)
                        (JObj [(''object'', JStr (statementBodyId opts))])),
                  (t, UnhandledRejection exn)]"
proof -
  show "\<exists>m. get_prop reason ''message'' = Inr m \<and>
      publishRaw_handler publish opts =
        [(0, Publish (peerUrl opts) (namespace opts)
               (JObj [(''object'', JStr (statementBodyId opts))])),
         (t, ConsoleError [m])]"
    if "\<not> is_nullish reason"
  proof -
    from that obtain m where "get_prop reason ''message'' = Inr m"
      using get_prop_defined by blast
    then show ?thesis
      using assms by (simp add: publishRaw_handler_def print_message_def)
  qed
  show "\<exists>exn. get_prop reason ''message'' = Inl exn \<and>
      publishRaw_handler publish opts =
        [(0, Publish (peerUrl opts) (namespace opts)
               (JObj [(''object'', JStr (statementBodyId opts))])),
         (t, UnhandledRejection exn)]"
    if "is_nullish reason"
  proof -
    from that obtain exn where "get_prop reason ''message'' = Inl exn"
      using get_prop_nullish by blast
    then show ?thesis
      using assms by (simp add: publishRaw_handler_def print_message_def)
  qed
qed

text \<open>
  Claim C7, amended. Nothing is retried, whatever the error: one run of the
  \<^verbatim>\<open>publishRaw\<close> handler calls publish exactly once and never calls
  \<^verbatim>\<open>process.exit\<close>. When the call is rejected with a reason other than \<^verbatim>\<open>null\<close> and
  \<^verbatim>\<open>undefined\<close>, the handler prints the reason's \<^verbatim>\<open>message\<close> with
  \<^verbatim>\<open>console.error\<close> at that time and does nothing else; for an error object that is
  the error's message. When the reason is \<^verbatim>\<open>null\<close> or \<^verbatim>\<open>undefined\<close>, the handler
  prints nothing and leaves a rejection that nothing handles. The order-placed handler
  calls publish not at all.
\<close>

theorem publishRaw_single_attempt:
  "length (filter (\<lambda>te. is_Publish (snd te)) (publishRaw_handler publish opts)) = 1 \<and>
   \<not> list_ex (\<lambda>te. is_ProcessExit (snd te)) (publishRaw_handler publish opts) \<and>
   (publish (peerUrl opts) 0 (namespace opts) (JObj [(''object'', JStr (statementBodyId opts))]) =
      Settled t (Rejected reason) \<and> \<not> is_nullish reason \<longrightarrow>
    (\<exists>m. get_prop reason ''message'' = Inr m \<and>
         publishRaw_handler publish opts =
           [(0, Publish (peerUrl opts) (namespace opts)
                  (JObj [(''object'', JStr (statementBodyId opts))])),
            (t, ConsoleError [m])])) \<and>
   (publish (peerUrl opts) 0 (namespace opts) (JObj [(''object'', JStr (statementBodyId opts))]) =
      Settled t (Rejected (JError kind msg)) \<longrightarrow>
    publishRaw_handler publish opts =
      [(0, Publish (peerUrl opts) (namespace opts) (JObj [(''object'', JStr (statementBodyId opts))])),
       (t, ConsoleError [JStr msg])]) \<and>
   (publish (peerUrl opts) 0 (namespace opts) (JObj [(''object'', JStr (statementBodyId opts))]) =
      Settled t (Rejected reason) \<and> is_nullish reason \<longrightarrow>
    (\<exists>exn. publishRaw_handler publish opts =
           [(0, Publish (peerUrl opts) (namespace opts)
                  (JObj [(''object'', JStr (statementBodyId opts))])),
            (t, UnhandledRejection exn)])) \<and>
   filter is_Publish (orderPlacedHandler err event) = []"
proof (intro conjI impI)
  show "length (filter (\<lambda>te. is_Publish (snd te)) (publishRaw_handler publish opts)) = 1"
    using on_settled_console by (simp add: publishRaw_handler_def Let_def)
  show "\<not> list_ex (\<lambda>te. is_ProcessExit (snd te)) (publishRaw_handler publish opts)"
    using on_settled_console by (simp add: publishRaw_handler_def Let_def)
  show "filter is_Publish (orderPlacedHandler err event) = []"
    by (simp add: orderPlacedHandler_def)
  show "publishRaw_handler publish opts =
      [(0, Publish (peerUrl opts) (namespace opts) (JObj [(''object'', JStr (statementBodyId opts))])),
       (t, ConsoleError [JStr msg])]"
    if "publish (peerUrl opts) 0 (namespace opts) (JObj [(''object'', JStr (statementBodyId opts))]) =
        Settled t (Rejected (JError kind msg))"
    using that by (simp add: publishRaw_handler_def print_message_def)
qed (use publishRaw_rejected in blast)+

text \<open>
  Witness for C7: the peer that refuses the first call with a \<^verbatim>\<open>ConnectionError\<close>, and
  the peer that rejects with \<^verbatim>\<open>null\<close>.
\<close>

theorem publishRaw_single_attempt_witness:
  "flaky_peer (peerUrl sample_opts) 0 (namespace sample_opts)
     (JObj [(''object'', JStr (statementBodyId sample_opts))]) =
     Settled 40 (Rejected (JError ''ConnectionError'' ''peer unreachable'')) \<and>
   \<not> is_nullish (JError ''ConnectionError'' ''peer unreachable'') \<and>
   publishRaw_handler flaky_peer sample_opts =
     [(0, Publish (peerUrl sample_opts) (namespace sample_opts)
            (JObj [(''object'', JStr (statementBodyId sample_opts))])),
      (40, ConsoleError [JStr ''peer unreachable''])] \<and>
   null_rejecting_peer (peerUrl sample_opts) 0 (namespace sample_opts)
     (JObj [(''object'', JStr (statementBodyId sample_opts))]) = Settled 40 (Rejected Null) \<and>
   is_nullish Null \<and>
   (\<exists>exn. publishRaw_handler null_rejecting_peer sample_opts =
      [(0, Publish (peerUrl sample_opts) (namespace sample_opts)
             (JObj [(''object'', JStr (statementBodyId sample_opts))])),
       (40, UnhandledRejection exn)])"
proof -
  have flaky: "flaky_peer (peerUrl sample_opts) 0 (namespace sample_opts)
     (JObj [(''object'', JStr (statementBodyId sample_opts))]) =
     Settled 40 (Rejected (JError ''ConnectionError'' ''peer unreachable''))"
    by (simp add: flaky_peer_def)
  have null: "null_rejecting_peer (peerUrl sample_opts) 0 (namespace sample_opts)
     (JObj [(''object'', JStr (statementBodyId sample_opts))]) = Settled 40 (Rejected Null)"
    by (simp add: null_rejecting_peer_def)
  have kinds: "\<not> is_nullish (JError ''ConnectionError'' ''peer unreachable'')" "is_nullish Null"
    by simp_all
  have printed: "publishRaw_handler flaky_peer sample_opts =
     [(0, Publish (peerUrl sample_opts) (namespace sample_opts)
            (JObj [(''object'', JStr (statementBodyId sample_opts))])),
      (40, ConsoleError [JStr ''peer unreachable''])]"
    using flaky
      publishRaw_single_attempt
        [of flaky_peer sample_opts 40 Undefined "''ConnectionError''" "''peer unreachable''"]
    by blast
  have unhandled: "\<exists>exn. publishRaw_handler null_rejecting_peer sample_opts =
      [(0, Publish (peerUrl sample_opts) (namespace sample_opts)
             (JObj [(''object'', JStr (statementBodyId sample_opts))])),
       (40, UnhandledRejection exn)]"
    using null kinds(2) publishRaw_single_attempt [of null_rejecting_peer sample_opts 40 Null]
    by blast
  show ?thesis
    using flaky null kinds printed unhandled by (intro conjI) assumption+
qed

text \<open>
  Claim C9 says that every publish call is wrapped in \<open>promiseTimeout\<close>, so that no
  operation blocks indefinitely. Counterexample: against the peer that never answers
  the handler calls publish and then never prints anything, while the same promise under
  \<open>promiseTimeout\<close> with 5000 ms would have been rejected at 5000 ms.
\<close>

theorem publishRaw_unbounded_counterexample:
  "publishRaw_handler silent_peer sample_opts =
     [(0, Publish ''http://localhost:9002'' ''scratch.test'' (JObj [(''object'', JStr hello_world_id)]))] \<and>
   \<not> list_ex (\<lambda>te. is_console (snd te)) (publishRaw_handler silent_peer sample_opts) \<and>
   promiseTimeout 5000 (silent_peer ''http://localhost:9002'' 0 ''scratch.test''
       (JObj [(''object'', JStr hello_world_id)])) =
     Settled 5000 (Rejected (timeout_error 5000))"
  by (simp add: publishRaw_handler_def silent_peer_def sample_opts_def promiseTimeout_def
      setTimeout_delay_def)

text \<open>
  Claim C9, amended. The publish call of the \<^verbatim>\<open>publishRaw\<close> handler is not wrapped
  in \<open>promiseTimeout\<close> and the handler takes no timeout: it does nothing for as long
  as the promise that publish returned is pending. It acts at the time that promise
  settles and not before: it prints the value when the promise is fulfilled, prints the
  reason's \<^verbatim>\<open>message\<close> when it is rejected with a reason other than \<^verbatim>\<open>null\<close> and
  \<^verbatim>\<open>undefined\<close>, and prints nothing, leaving a rejection that nothing handles, when
  the reason is \<^verbatim>\<open>null\<close> or \<^verbatim>\<open>undefined\<close>. \<open>promiseTimeout\<close> itself, wherever a
  caller applies it, settles no later than its timer fires.
\<close>

theorem publishRaw_waits_for_publish:
  "(publish (peerUrl opts) 0 (namespace opts) (JObj [(''object'', JStr (statementBodyId opts))]) = Pending \<longrightarrow>
      publishRaw_handler publish opts =
        [(0, Publish (peerUrl opts) (namespace opts) (JObj [(''object'', JStr (statementBodyId opts))]))]) \<and>
   (publish (peerUrl opts) 0 (namespace opts) (JObj [(''object'', JStr (statementBodyId opts))]) =
      Settled t (Fulfilled v) \<longrightarrow>
      publishRaw_handler publish opts =
        [(0, Publish (peerUrl opts) (namespace opts) (JObj [(''object'', JStr (statementBodyId opts))])),
         (t, ConsoleLog [v])]) \<and>
   (publish (peerUrl opts) 0 (namespace opts) (JObj [(''object'', JStr (statementBodyId opts))]) =
      Settled t (Rejected reason) \<and> \<not> is_nullish reason \<longrightarrow>
      (\<exists>m. get_prop reason ''message'' = Inr m \<and>
           publishRaw_handler publish opts =
             [(0, Publish (peerUrl opts) (namespace opts)
                    (JObj [(''object'', JStr (statementBodyId opts))])),
              (t, ConsoleError [m])])) \<and>
   (publish (peerUrl opts) 0 (namespace opts) (JObj [(''object'', JStr (statementBodyId opts))]) =
      Settled t (Rejected reason) \<and> is_nullish reason \<longrightarrow>
      (\<exists>exn. publishRaw_handler publish opts =
             [(0, Publish (peerUrl opts) (namespace opts)
                    (JObj [(''object'', JStr (statementBodyId opts))])),
              (t, UnhandledRejection exn)])) \<and>
   (\<exists>t' r. promiseTimeout timeout p = Settled t' r \<and> t' \<le> setTimeout_delay timeout)"
proof (intro conjI impI)
  show "\<exists>t' r. promiseTimeout timeout p = Settled t' r \<and> t' \<le> setTimeout_delay timeout"
    by (rule promiseTimeout_settles)
  show "publishRaw_handler publish opts =
      [(0, Publish (peerUrl opts) (namespace opts) (JObj [(''object'', JStr (statementBodyId opts))]))]"
    if "publish (peerUrl opts) 0 (namespace opts) (JObj [(''object'', JStr (statementBodyId opts))]) = Pending"
    using that by (simp add: publishRaw_handler_def)
  show "publishRaw_handler publish opts =
      [(0, Publish (peerUrl opts) (namespace opts) (JObj [(''object'', JStr (statementBodyId opts))])),
       (t, ConsoleLog [v])]"
    if "publish (peerUrl opts) 0 (namespace opts) (JObj [(''object'', JStr (statementBodyId opts))]) =
        Settled t (Fulfilled v)"
    using that by (simp add: publishRaw_handler_def)
qed (use publishRaw_rejected in blast)+

text \<open>
  Witness for C9: the peer that never answers, the peer that accepts at 40 ms, the peer
  that refuses with a \<^verbatim>\<open>ConnectionError\<close> at 40 ms and the peer that rejects with
  \<^verbatim>\<open>null\<close> at 40 ms.
\<close>

theorem publishRaw_waits_for_publish_witness:
  "silent_peer (peerUrl sample_opts) 0 (namespace sample_opts)
     (JObj [(''object'', JStr (statementBodyId sample_opts))]) = Pending \<and>
   publishRaw_handler silent_peer sample_opts =
     [(0, Publish (peerUrl sample_opts) (namespace sample_opts)
            (JObj [(''object'', JStr (statementBodyId sample_opts))]))] \<and>
   accepting_peer (peerUrl sample_opts) 0 (namespace sample_opts)
     (JObj [(''object'', JStr (statementBodyId sample_opts))]) = Settled 40 (Fulfilled (JStr ''published'')) \<and>
   publishRaw_handler accepting_peer sample_opts =
     [(0, Publish (peerUrl sample_opts) (namespace sample_opts)
            (JObj [(''object'', JStr (statementBodyId sample_opts))])),
      (40, ConsoleLog [JStr ''published''])] \<and>
   flaky_peer (peerUrl sample_opts) 0 (namespace sample_opts)
     (JObj [(''object'', JStr (statementBodyId sample_opts))]) =
     Settled 40 (Rejected (JError ''ConnectionError'' ''peer unreachable'')) \<and>
   \<not> is_nullish (JError ''ConnectionError'' ''peer unreachable'') \<and>
   (\<exists>m. get_prop (JError ''ConnectionError'' ''peer unreachable'') ''message'' = Inr m \<and>
        publishRaw_handler flaky_peer sample_opts =
          [(0, Publish (peerUrl sample_opts) (namespace sample_opts)
                 (JObj [(''object'', JStr (statementBodyId sample_opts))])),
           (40, ConsoleError [m])]) \<and>
   null_rejecting_peer (peerUrl sample_opts) 0 (namespace sample_opts)
     (JObj [(''object'', JStr (statementBodyId sample_opts))]) = Settled 40 (Rejected Null) \<and>
   is_nullish Null \<and>
   (\<exists>exn. publishRaw_handler null_rejecting_peer sample_opts =
      [(0, Publish (peerUrl sample_opts) (namespace sample_opts)
             (JObj [(''object'', JStr (statementBodyId sample_opts))])),
       (40, UnhandledRejection exn)])"
proof -
  have silent: "silent_peer (peerUrl sample_opts) 0 (namespace sample_opts)
     (JObj [(''object'', JStr (statementBodyId sample_opts))]) = Pending"
    by (simp add: silent_peer_def)
  have accepting: "accepting_peer (peerUrl sample_opts) 0 (namespace sample_opts)
     (JObj [(''object'', JStr (statementBodyId sample_opts))]) = Settled 40 (Fulfilled (JStr ''published''))"
    by (simp add: accepting_peer_def)
  have flaky: "flaky_peer (peerUrl sample_opts) 0 (namespace sample_opts)
     (JObj [(''object'', JStr (statementBodyId sample_opts))]) =
     Settled 40 (Rejected (JError ''ConnectionError'' ''peer unreachable''))"
    by (simp add: flaky_peer_def)
  have null: "null_rejecting_peer (peerUrl sample_opts) 0 (namespace sample_opts)
     (JObj [(''object'', JStr (statementBodyId sample_opts))]) = Settled 40 (Rejected Null)"
    by (simp add: null_rejecting_peer_def)
  have kinds: "\<not> is_nullish (JError ''ConnectionError'' ''peer unreachable'')" "is_nullish Null"
    by simp_all
  have waiting: "publishRaw_handler silent_peer sample_opts =
     [(0, Publish (peerUrl sample_opts) (namespace sample_opts)
            (JObj [(''object'', JStr (statementBodyId sample_opts))]))]"
    using silent publishRaw_waits_for_publish [of silent_peer sample_opts 0 Undefined Undefined]
    by blast
  have printed: "publishRaw_handler accepting_peer sample_opts =
     [(0, Publish (peerUrl sample_opts) (namespace sample_opts)
            (JObj [(''object'', JStr (statementBodyId sample_opts))])),
      (40, ConsoleLog [JStr ''published''])]"
    using accepting
      publishRaw_waits_for_publish [of accepting_peer sample_opts 40 "JStr ''published''" Undefined]
    by blast
  have refused: "\<exists>m. get_prop (JError ''ConnectionError'' ''peer unreachable'') ''message'' = Inr m \<and>
        publishRaw_handler flaky_peer sample_opts =
          [(0, Publish (peerUrl sample_opts) (namespace sample_opts)
                 (JObj [(''object'', JStr (statementBodyId sample_opts))])),
           (40, ConsoleError [m])]"
    using flaky kinds(1)
      publishRaw_waits_for_publish
        [of flaky_peer sample_opts 40 Undefined "JError ''ConnectionError'' ''peer unreachable''"]
    by blast
  have unhandled: "\<exists>exn. publishRaw_handler null_rejecting_peer sample_opts =
      [(0, Publish (peerUrl sample_opts) (namespace sample_opts)
             (JObj [(''object'', JStr (statementBodyId sample_opts))])),
       (40, UnhandledRejection exn)]"
    using null kinds(2)
      publishRaw_waits_for_publish [of null_rejecting_peer sample_opts 40 Undefined Null]
    by blast
  show ?thesis
    using silent accepting flaky null kinds waiting printed refused unhandled
    by (intro conjI) assumption+
qed

section \<open>The \<^verbatim>\<open>oracle\<close> handler\<close>

lemma simplewrite_unbound:
  "read_identifier ''simplewrite'' = Inl (JError ''ReferenceError'' ''simplewrite is not defined'')"
  by (simp add: read_identifier_def scope_def)

lemma post_connection_throws: "\<exists>exn. post_connection opts env = ([], Some exn)"
  by (cases "constructors_throw env") (simp_all add: post_connection_def simplewrite_unbound)

lemma then_catch_quiet:
  "Watch \<notin> set (then_catch opts env init) \<and> \<not> list_ex is_ProcessExit (then_catch opts env init)"
proof -
  obtain exn where "post_connection opts env = ([], Some exn)"
    using post_connection_throws by blast
  then show ?thesis
    by (auto simp: then_catch_def split: option.splits outcome.splits)
qed

lemma directory_notice_quiet:
  "Watch \<notin> set (directory_notice nr) \<and> \<not> list_ex is_ProcessExit (directory_notice nr)"
  by (simp add: directory_notice_def)

lemma connected_quiet:
  "Watch \<notin> set (connected opts env nr) \<and> \<not> list_ex is_ProcessExit (connected opts env nr)"
  using then_catch_quiet [of opts env] directory_notice_quiet [of nr]
  by (auto simp: connected_def split: option.splits outcome.splits sum.splits)

text \<open>
  Claim C10. In the callback that runs once the node is connected, \<^verbatim>\<open>simplewrite\<close>
  and \<^verbatim>\<open>s\<close> are bound nowhere. Every run of the callback ends in an exception
  before any effect of its own, and the \<^verbatim>\<open>catch\<close> that follows prints that
  exception and does nothing else; when the constructors before it return, the exception
  is the \<^verbatim>\<open>ReferenceError\<close> for \<^verbatim>\<open>simplewrite\<close>. No run of the handler, whatever
  the environment does, registers the watch or reaches \<^verbatim>\<open>process.exit(-1)\<close>.
\<close>

theorem post_connection_never_watches:
  "(\<exists>exn. post_connection opts env = ([], Some exn) \<and>
          then_catch opts env (Some (Fulfilled v)) = [ConsoleLog [exn]]) \<and>
   (constructors_throw env = None \<longrightarrow>
      post_connection opts env =
        ([], Some (JError ''ReferenceError'' ''simplewrite is not defined''))) \<and>
   Watch \<notin> set (oracle_handler opts env) \<and>
   ProcessExit (- 1) \<notin> set (oracle_handler opts env)"
proof (intro conjI impI)
  obtain exn where exn: "post_connection opts env = ([], Some exn)"
    using post_connection_throws by blast
  then show "\<exists>exn. post_connection opts env = ([], Some exn) \<and>
      then_catch opts env (Some (Fulfilled v)) = [ConsoleLog [exn]]"
    by (simp add: then_catch_def)
  show "post_connection opts env = ([], Some (JError ''ReferenceError'' ''simplewrite is not defined''))"
    if "constructors_throw env = None"
    using that by (simp add: post_connection_def simplewrite_unbound)
  show "Watch \<notin> set (oracle_handler opts env)"
    using connected_quiet [of opts env]
    by (auto simp: oracle_handler_def split: option.splits outcome.splits sum.splits)
  have "\<not> list_ex is_ProcessExit (connected opts env nr)" for nr
    using connected_quiet [of opts env nr] by simp
  then have "ProcessExit (- 1) \<notin> set (connected opts env nr)" for nr
    by (fastforce simp: list_ex_iff)
  then show "ProcessExit (- 1) \<notin> set (oracle_handler opts env)"
    by (auto simp: oracle_handler_def split: option.splits outcome.splits sum.splits)
qed

text \<open>Witness for C10: the run with the RPC endpoint unreachable.\<close>

theorem post_connection_never_watches_witness:
  "constructors_throw rpc_down = None \<and>
   post_connection local_opts rpc_down =
     ([], Some (JError ''ReferenceError'' ''simplewrite is not defined'')) \<and>
   Watch \<notin> set (oracle_handler local_opts rpc_down)"
proof -
  have "constructors_throw rpc_down = None" by (simp add: rpc_down_def)
  with post_connection_never_watches [of local_opts rpc_down Undefined]
  show ?thesis by blast
qed

text \<open>
  A rejected \<^verbatim>\<open>bootstrap\<close> prints the diagnostic and ends the process with status 1;
  nothing else happens, no subscription in particular.
\<close>

lemma oracle_handler_bootstrap_failure:
  "bootstrap env = Some (Rejected (JError kind msg)) \<Longrightarrow>
   oracle_handler opts env =
     [ConsoleError [JStr (''Error setting up aleph node: '' @ msg)], ProcessExit 1]"
  by (simp add: oracle_handler_def)

text \<open>
  Claim C8 says that a failure of the peer-network connection or of the event-source
  connection at startup ends the process with a non-zero exit status. The first half
  holds for \<^verbatim>\<open>bootstrap\<close> (lemma \<open>oracle_handler_bootstrap_failure\<close>). For the second
  the source has the check, \<^verbatim>\<open>if (!web3.isConnected()) ... process.exit(-1)\<close>, but
  never reaches it: with the Ethereum RPC endpoint unreachable the run below prints the
  \<^verbatim>\<open>ReferenceError\<close> and the process is not ended.
\<close>

theorem oracle_handler_rpc_down:
  "oracle_handler local_opts rpc_down =
     [ConsoleLog [JStr ''No remote peer specified, running in detached mode''],
      NodeStart,
      ConsoleLog [JStr ''No directory specified, running without directory''],
      ConsoleLog [JError ''ReferenceError'' ''simplewrite is not defined'']] \<and>
   \<not> list_ex is_ProcessExit (oracle_handler local_opts rpc_down)"
  by (simp add: oracle_handler_def connected_def then_catch_def post_connection_def
      directory_notice_def rpc_down_def local_opts_def simplewrite_unbound)

text \<open>A rejected \<^verbatim>\<open>node.start()\<close> is printed as well, and the process goes on.\<close>

lemma oracle_handler_node_down:
  "oracle_handler local_opts node_down =
     [ConsoleLog [JStr ''No remote peer specified, running in detached mode''],
      NodeStart,
      ConsoleLog [JStr ''No directory specified, running without directory''],
      ConsoleLog [JError ''Error'' ''listen EADDRINUSE'']]"
  by (simp add: oracle_handler_def connected_def then_catch_def
      directory_notice_def node_down_def local_opts_def)

end
